theory Spec2Isabelle
  imports Main "HOL-Library.Sublist"
begin

section \<open>Record model (types.ts)\<close>

text \<open>
  Strings are lists of characters; the one non-ASCII literal of the exporter is written as
  its UTF-8 bytes. A timestamp (\<open>createdAt\<close>, \<open>Date.now()\<close>) is an integer number of
  milliseconds. Optional fields are options. The field \<open>id\<close> of both interfaces is
  renamed (\<open>link_id\<close>, \<open>cat_id\<close>), as is the category's \<open>icon\<close>.
\<close>

record LinkItem =
  link_id :: string
  title :: string
  url :: string
  icon :: "string option"
  description :: "string option"
  categoryId :: string
  createdAt :: int
  pinned :: "bool option"

record Category =
  cat_id :: string
  name :: string
  cat_icon :: string
  password :: "string option"

record WebDavConfig =
  cfg_url :: string
  username :: string
  cfg_password :: string
  enabled :: bool

definition DEFAULT_CATEGORIES :: "Category list" where
  "DEFAULT_CATEGORIES =
     [\<lparr>cat_id = ''common'', name = [CHR 0xE5, CHR 0xB8, CHR 0xB8, CHR 0xE7, CHR 0x94, CHR 0xA8,
          CHR 0xE6, CHR 0x8E, CHR 0xA8, CHR 0xE8, CHR 0x8D, CHR 0x90],
        cat_icon = ''Star'', password = None\<rparr>,
      \<lparr>cat_id = ''dev'', name = [CHR 0xE5, CHR 0xBC, CHR 0x80, CHR 0xE5, CHR 0x8F, CHR 0x91,
          CHR 0xE5, CHR 0xB7, CHR 0xA5, CHR 0xE5, CHR 0x85, CHR 0xB7],
        cat_icon = ''Code'', password = None\<rparr>,
      \<lparr>cat_id = ''design'', name = [CHR 0xE8, CHR 0xAE, CHR 0xBE, CHR 0xE8, CHR 0xAE, CHR 0xA1,
          CHR 0xE8, CHR 0xB5, CHR 0x84, CHR 0xE6, CHR 0xBA, CHR 0x90],
        cat_icon = ''Palette'', password = None\<rparr>,
      \<lparr>cat_id = ''read'', name = [CHR 0xE9, CHR 0x98, CHR 0x85, CHR 0xE8, CHR 0xAF, CHR 0xBB,
          CHR 0xE8, CHR 0xB5, CHR 0x84, CHR 0xE8, CHR 0xAE, CHR 0xAF],
        cat_icon = ''BookOpen'', password = None\<rparr>,
      \<lparr>cat_id = ''ent'', name = [CHR 0xE4, CHR 0xBC, CHR 0x91, CHR 0xE9, CHR 0x97, CHR 0xB2,
          CHR 0xE5, CHR 0xA8, CHR 0xB1, CHR 0xE4, CHR 0xB9, CHR 0x90],
        cat_icon = ''Gamepad2'', password = None\<rparr>,
      \<lparr>cat_id = ''ai'', name = [CHR 0xE4, CHR 0xBA, CHR 0xBA, CHR 0xE5, CHR 0xB7, CHR 0xA5,
          CHR 0xE6, CHR 0x99, CHR 0xBA, CHR 0xE8, CHR 0x83, CHR 0xBD],
        cat_icon = ''Bot'', password = None\<rparr>]"

section \<open>Bookmark export (services/exportService.ts)\<close>

subsection \<open>Numbers and characters in template strings\<close>

definition dquote :: char where
  "dquote = CHR 0x22"

definition squote :: char where
  "squote = CHR 0x27"

definition digit_char :: "nat \<Rightarrow> char" where
  "digit_char d =
     (if d = 0 then CHR ''0'' else if d = 1 then CHR ''1'' else if d = 2 then CHR ''2''
      else if d = 3 then CHR ''3'' else if d = 4 then CHR ''4'' else if d = 5 then CHR ''5''
      else if d = 6 then CHR ''6'' else if d = 7 then CHR ''7'' else if d = 8 then CHR ''8''
      else CHR ''9'')"

text \<open>The decimal numeral that a template string writes for an integer number.\<close>

fun show_nat :: "nat \<Rightarrow> string" where
  "show_nat n =
     (if n < 10 then [digit_char n] else show_nat (n div 10) @ [digit_char (n mod 10)])"

declare show_nat.simps [simp del]

definition show_int :: "int \<Rightarrow> string" where
  "show_int i = (if i < 0 then CHR ''-'' # show_nat (nat (- i)) else show_nat (nat i))"

subsection \<open>escapeHtml\<close>

text \<open>\<open>s.replace(/c/g, r)\<close> for a single character \<open>c\<close> and a replacement without \<open>$\<close>.\<close>

definition replace_all :: "char \<Rightarrow> string \<Rightarrow> string \<Rightarrow> string" where
  "replace_all c r s = concat (map (\<lambda>x. if x = c then r else [x]) s)"

definition escapeHtml :: "string \<Rightarrow> string" where
  "escapeHtml unsafe =
     replace_all squote ''&#039;''
       (replace_all dquote ''&quot;''
         (replace_all CHR ''>'' ''&gt;''
           (replace_all CHR ''<'' ''&lt;''
             (replace_all CHR ''&'' ''&amp;'' unsafe))))"

subsection \<open>generateBookmarkHtml\<close>

definition header :: string where
  \<open>header =
     ''<!DOCTYPE NETSCAPE-Bookmark-file-1>\<newline>'' @
     ''<!-- This is an automatically generated file.\<newline>'' @
     ''     It will be read and overwritten.\<newline>'' @
     ''     DO NOT EDIT! -->\<newline>'' @
     ''<META HTTP-EQUIV="Content-Type" CONTENT="text/html; charset=UTF-8">\<newline>'' @
     ''<TITLE>Bookmarks</TITLE>\<newline>'' @
     ''<H1>Bookmarks</H1>\<newline>'' @
     ''<DL><p>\<newline>''\<close>

definition footer :: string where
  "footer = ''</DL><p>''"

text \<open>The folder name of the trailing folder, three CJK characters in UTF-8.\<close>

definition uncategorized_label :: string where
  "uncategorized_label =
     [CHR 0xE6, CHR 0x9C, CHR 0xAA, CHR 0xE5, CHR 0x88, CHR 0x86, CHR 0xE7, CHR 0xB1, CHR 0xBB]"

text \<open>
  Lines 30 to 35: the \<open>Map\<close> from category identifier to the links that carry it, filled
  by one pass over the links; a missing key reads as the empty list.
\<close>

definition group_step :: "(string \<rightharpoonup> LinkItem list) \<Rightarrow> LinkItem \<Rightarrow> (string \<rightharpoonup> LinkItem list)" where
  "group_step m link =
     (let list = (case m (categoryId link) of Some l \<Rightarrow> l | None \<Rightarrow> [])
      in m(categoryId link \<mapsto> list @ [link]))"

definition linksByCat :: "LinkItem list \<Rightarrow> (string \<rightharpoonup> LinkItem list)" where
  "linksByCat links = foldl group_step Map.empty links"

text \<open>Line 39: the links of one category.\<close>

definition catLinks :: "LinkItem list \<Rightarrow> Category \<Rightarrow> LinkItem list" where
  "catLinks links cat = (case linksByCat links (cat_id cat) of Some l \<Rightarrow> l | None \<Rightarrow> [])"

text \<open>Lines 54 and 55: the links whose category identifier is no category's.\<close>

definition uncategorized :: "LinkItem list \<Rightarrow> Category list \<Rightarrow> LinkItem list" where
  "uncategorized links categories =
     (let validCatIds = set (map cat_id categories)
      in filter (\<lambda>l. categoryId l \<notin> validCatIds) links)"

text \<open>Line 46: \<open>link.icon ? ... : ''\<close>; an absent and an empty icon are both falsy.\<close>

definition iconAttr :: "LinkItem \<Rightarrow> string" where
  \<open>iconAttr link =
     (case icon link of
        None \<Rightarrow> []
      | Some i \<Rightarrow> if i = [] then [] else '' ICON="'' @ i @ ''"'')\<close>

text \<open>Lines 45 to 47: the anchor of a link inside a category folder.\<close>

definition category_anchor :: "LinkItem \<Rightarrow> string" where
  \<open>category_anchor link =
     (let date = createdAt link div 1000
      in ''        <DT><A HREF="'' @ url link @ ''" ADD_DATE="'' @ show_int date @ ''"'' @
         iconAttr link @ ''>'' @ escapeHtml (title link) @ ''</A>\<newline>'')\<close>

text \<open>Lines 61 and 62: the anchor of a link inside the trailing folder.\<close>

definition uncategorized_anchor :: "LinkItem \<Rightarrow> string" where
  \<open>uncategorized_anchor link =
     (let date = createdAt link div 1000
      in ''        <DT><A HREF="'' @ url link @ ''" ADD_DATE="'' @ show_int date @ ''">'' @
         escapeHtml (title link) @ ''</A>\<newline>'')\<close>

text \<open>Lines 38 to 51: the body of \<open>categories.forEach\<close>, appending to \<open>html\<close>.\<close>

definition emit_category :: "int \<Rightarrow> LinkItem list \<Rightarrow> string \<Rightarrow> Category \<Rightarrow> string" where
  \<open>emit_category now links html cat =
     (let html1 = html @ ''    <DT><H3 ADD_DATE="'' @ show_int now @ ''" LAST_MODIFIED="'' @
                    show_int now @ ''">'' @ escapeHtml (name cat) @ ''</H3>\<newline>'';
          html2 = html1 @ ''    <DL><p>\<newline>'';
          html3 = foldl (\<lambda>h link. h @ category_anchor link) html2 (catLinks links cat)
      in html3 @ ''    </DL><p>\<newline>'')\<close>

text \<open>
  The generator. \<open>dateNow\<close> is the value of \<open>Date.now()\<close>, the only input the function
  takes from its environment.
\<close>

definition generateBookmarkHtml :: "int \<Rightarrow> LinkItem list \<Rightarrow> Category list \<Rightarrow> string" where
  \<open>generateBookmarkHtml dateNow links categories =
     (let now = dateNow div 1000;
          html = foldl (emit_category now links) header categories;
          unc = uncategorized links categories;
          html' =
            (if length unc > 0
             then (let h1 = html @ ''    <DT><H3 ADD_DATE="'' @ show_int now @
                              ''" LAST_MODIFIED="'' @ show_int now @ ''">'' @
                              uncategorized_label @ ''</H3>\<newline>'';
                       h2 = h1 @ ''    <DL><p>\<newline>'';
                       h3 = foldl (\<lambda>h link. h @ uncategorized_anchor link) h2 unc
                   in h3 @ ''    </DL><p>\<newline>'')
             else html)
      in html' @ footer)\<close>

subsection \<open>The shape of the document\<close>

text \<open>
  A folder as it stands in the document: the heading line with the text of the heading, the
  opening of the list, the anchors, and the closing of the list.
\<close>

definition folder_block :: "int \<Rightarrow> string \<Rightarrow> string list \<Rightarrow> string" where
  \<open>folder_block now heading anchors =
     ''    <DT><H3 ADD_DATE="'' @ show_int now @ ''" LAST_MODIFIED="'' @ show_int now @ ''">'' @
     heading @ ''</H3>\<newline>'' @ ''    <DL><p>\<newline>'' @ concat anchors @
     ''    </DL><p>\<newline>''\<close>

text \<open>The substitution of the five special characters, one character at a time.\<close>

definition escape_char :: "char \<Rightarrow> string" where
  "escape_char c =
     (if c = CHR ''&'' then ''&amp;''
      else if c = CHR ''<'' then ''&lt;''
      else if c = CHR ''>'' then ''&gt;''
      else if c = dquote then ''&quot;''
      else if c = squote then ''&#039;''
      else [c])"

subsection \<open>What a reader of the document is to recover\<close>

text \<open>
  A folder of the document as a reader sees it: the name in its heading, and the title and
  the address of each anchor, in the order of the document.
\<close>

type_synonym folder = "string \<times> (string \<times> string) list"

definition exported_folders :: "LinkItem list \<Rightarrow> Category list \<Rightarrow> folder list" where
  "exported_folders links cats =
     map (\<lambda>c. (name c, map (\<lambda>l. (title l, url l)) (filter (\<lambda>l. categoryId l = cat_id c) links)))
       cats @
     (if filter (\<lambda>l. categoryId l \<notin> cat_id ` set cats) links = [] then []
      else [(uncategorized_label,
             map (\<lambda>l. (title l, url l)) (filter (\<lambda>l. categoryId l \<notin> cat_id ` set cats) links))])"

text \<open>
  A link whose address holds no double quote, and whose icon holds none where the icon is
  written (in a category folder).
\<close>

definition attribute_safe :: "Category list \<Rightarrow> LinkItem \<Rightarrow> bool" where
  "attribute_safe cats l =
     (dquote \<notin> set (url l) \<and>
      (if categoryId l \<in> cat_id ` set cats
       then (case icon l of None \<Rightarrow> True | Some i \<Rightarrow> dquote \<notin> set i)
       else True))"

section \<open>Reading a bookmark document\<close>

text \<open>
  Modelled from the spec: the import codec \<open>parseBookmarks\<close> (services/bookmarkParser) is
  not among the sources. The spec says of it that it parses the uploaded file as a DOM and
  returns the links and categories "extracted from the folder structure". The reader below is
  the tokenizer of an HTML parser, cut down to what a bookmark file holds, followed by a walk
  over the tokens.

  The tokenizer normalizes newlines as the characters come in (a carriage return becomes a
  line feed, and a line feed after a carriage return is dropped), reads tags with their
  attributes state by state as the HTML standard lays them out (names in lower case; values
  in double quotes, in single quotes or bare; a repeated attribute name ignored), skips
  comments and declarations, and decodes character references in text and in attribute
  values. Of the character references only the five that the exporter writes are decoded.
  A NUL character is dropped from text and replaced in an attribute value. The special
  treatment of the content of \<open>title\<close>, \<open>script\<close> and \<open>style\<close> is left out: the one
  title of a bookmark file is fixed text.

  The walk takes the text of each \<open>h3\<close> element as the name of a folder and each \<open>a\<close>
  element that has an \<open>href\<close> as a link of the folder opened last, with the element's text
  as its title; an anchor before the first heading belongs to no folder and is left out.
\<close>

subsection \<open>Characters\<close>

definition CR :: char where
  "CR = CHR 0x0D"

definition LF :: char where
  "LF = CHR 0x0A"

definition NUL :: char where
  "NUL = CHR 0x00"

text \<open>U+FFFD in UTF-8.\<close>

definition replacement_character :: string where
  "replacement_character = [CHR 0xEF, CHR 0xBF, CHR 0xBD]"

definition is_space :: "char \<Rightarrow> bool" where
  "is_space c = (c = CHR 0x09 \<or> c = CHR 0x0A \<or> c = CHR 0x0C \<or> c = CHR 0x20)"

definition upper_letters :: string where
  "upper_letters = ''ABCDEFGHIJKLMNOPQRSTUVWXYZ''"

definition lower_letters :: string where
  "lower_letters = ''abcdefghijklmnopqrstuvwxyz''"

definition is_alpha :: "char \<Rightarrow> bool" where
  "is_alpha c = (c \<in> set upper_letters \<or> c \<in> set lower_letters)"

definition lower :: "char \<Rightarrow> char" where
  "lower c = (case map_of (zip upper_letters lower_letters) c of Some d \<Rightarrow> d | None \<Rightarrow> c)"

text \<open>A character of a tag name or of an attribute name.\<close>

definition name_char :: "char \<Rightarrow> string" where
  "name_char c = (if c = NUL then replacement_character else [lower c])"

subsection \<open>Character references\<close>

fun unescapeHtml :: "string \<Rightarrow> string" where
  "unescapeHtml [] = []"
| "unescapeHtml (c # cs) =
     (if c = CHR ''&'' then
        (if take 4 cs = ''amp;'' then CHR ''&'' # unescapeHtml (drop 4 cs)
         else if take 3 cs = ''lt;'' then CHR ''<'' # unescapeHtml (drop 3 cs)
         else if take 3 cs = ''gt;'' then CHR ''>'' # unescapeHtml (drop 3 cs)
         else if take 5 cs = ''quot;'' then dquote # unescapeHtml (drop 5 cs)
         else if take 5 cs = ''#039;'' then squote # unescapeHtml (drop 5 cs)
         else c # unescapeHtml cs)
      else c # unescapeHtml cs)"

text \<open>The text of a run of character data, and the value of an attribute, from what was read.\<close>

definition text_value :: "string \<Rightarrow> string" where
  "text_value raw = filter (\<lambda>c. c \<noteq> NUL) (unescapeHtml raw)"

definition attr_value :: "string \<Rightarrow> string" where
  "attr_value raw =
     concat (map (\<lambda>c. if c = NUL then replacement_character else [c]) (unescapeHtml raw))"

subsection \<open>The tokenizer\<close>

type_synonym attrs = "(string \<times> string) list"

datatype token = Chars string | StartTag string attrs | EndTag string

text \<open>
  The states carry what has been read so far: the pending text; for a tag whether it is an
  end tag, its name and its finished attributes; for an attribute its name and its value.
\<close>

datatype tstate =
    Data string
  | TagOpen string
  | EndTagOpen string
  | TagName bool string
  | BeforeAttrName bool string attrs
  | AttrName bool string attrs string
  | AfterAttrName bool string attrs string
  | BeforeAttrValue bool string attrs string
  | AttrValueDq bool string attrs string string
  | AttrValueSq bool string attrs string string
  | AttrValueUnq bool string attrs string string
  | AfterAttrValueQ bool string attrs
  | SelfClosing bool string attrs
  | MarkupDecl
  | MarkupDeclDash
  | BogusComment
  | CommentStart
  | CommentStartDash
  | Comment
  | CommentLt
  | CommentLtBang
  | CommentLtBangDash
  | CommentLtBangDashDash
  | CommentEndDash
  | CommentEnd
  | CommentEndBang

definition emit_tag :: "bool \<Rightarrow> string \<Rightarrow> attrs \<Rightarrow> token" where
  "emit_tag closing n as = (if closing then EndTag n else StartTag n as)"

text \<open>An attribute whose name the tag already has is ignored.\<close>

definition add_attr :: "attrs \<Rightarrow> string \<Rightarrow> string \<Rightarrow> attrs" where
  "add_attr as n v = (if n \<in> fst ` set as then as else as @ [(n, attr_value v)])"

text \<open>
  What each state does with a character. A state that the standard enters by reconsuming
  the character has its own function, which the other states call.
\<close>

definition data_char :: "string \<Rightarrow> char \<Rightarrow> token list \<times> tstate" where
  "data_char t c = (if c = CHR ''<'' then ([], TagOpen t) else ([], Data (t @ [c])))"

definition attr_name_char ::
  "bool \<Rightarrow> string \<Rightarrow> attrs \<Rightarrow> string \<Rightarrow> char \<Rightarrow> token list \<times> tstate" where
  "attr_name_char b n as an c =
     (if is_space c then ([], AfterAttrName b n as an)
      else if c = CHR ''/'' then ([], SelfClosing b n (add_attr as an []))
      else if c = CHR ''>'' then ([emit_tag b n (add_attr as an [])], Data [])
      else if c = CHR ''='' then ([], BeforeAttrValue b n as an)
      else ([], AttrName b n as (an @ name_char c)))"

definition before_attr_name_char ::
  "bool \<Rightarrow> string \<Rightarrow> attrs \<Rightarrow> char \<Rightarrow> token list \<times> tstate" where
  "before_attr_name_char b n as c =
     (if is_space c then ([], BeforeAttrName b n as)
      else if c = CHR ''/'' then ([], SelfClosing b n as)
      else if c = CHR ''>'' then ([emit_tag b n as], Data [])
      else if c = CHR ''='' then ([], AttrName b n as ''='')
      else attr_name_char b n as [] c)"

definition after_attr_name_char ::
  "bool \<Rightarrow> string \<Rightarrow> attrs \<Rightarrow> string \<Rightarrow> char \<Rightarrow> token list \<times> tstate" where
  "after_attr_name_char b n as an c =
     (if is_space c then ([], AfterAttrName b n as an)
      else if c = CHR ''/'' then ([], SelfClosing b n (add_attr as an []))
      else if c = CHR ''='' then ([], BeforeAttrValue b n as an)
      else if c = CHR ''>'' then ([emit_tag b n (add_attr as an [])], Data [])
      else attr_name_char b n (add_attr as an []) [] c)"

definition attr_value_unq_char ::
  "bool \<Rightarrow> string \<Rightarrow> attrs \<Rightarrow> string \<Rightarrow> string \<Rightarrow> char \<Rightarrow> token list \<times> tstate" where
  "attr_value_unq_char b n as an v c =
     (if is_space c then ([], BeforeAttrName b n (add_attr as an v))
      else if c = CHR ''>'' then ([emit_tag b n (add_attr as an v)], Data [])
      else ([], AttrValueUnq b n as an (v @ [c])))"

definition before_attr_value_char ::
  "bool \<Rightarrow> string \<Rightarrow> attrs \<Rightarrow> string \<Rightarrow> char \<Rightarrow> token list \<times> tstate" where
  "before_attr_value_char b n as an c =
     (if is_space c then ([], BeforeAttrValue b n as an)
      else if c = dquote then ([], AttrValueDq b n as an [])
      else if c = squote then ([], AttrValueSq b n as an [])
      else if c = CHR ''>'' then ([emit_tag b n (add_attr as an [])], Data [])
      else attr_value_unq_char b n as an [] c)"

definition bogus_char :: "char \<Rightarrow> token list \<times> tstate" where
  "bogus_char c = (if c = CHR ''>'' then ([], Data []) else ([], BogusComment))"

definition comment_char :: "char \<Rightarrow> token list \<times> tstate" where
  "comment_char c =
     (if c = CHR ''<'' then ([], CommentLt)
      else if c = CHR ''-'' then ([], CommentEndDash)
      else ([], Comment))"

definition comment_end_dash_char :: "char \<Rightarrow> token list \<times> tstate" where
  "comment_end_dash_char c = (if c = CHR ''-'' then ([], CommentEnd) else comment_char c)"

definition comment_end_char :: "char \<Rightarrow> token list \<times> tstate" where
  "comment_end_char c =
     (if c = CHR ''>'' then ([], Data [])
      else if c = CHR ''!'' then ([], CommentEndBang)
      else if c = CHR ''-'' then ([], CommentEnd)
      else comment_char c)"

fun tstep :: "tstate \<Rightarrow> char \<Rightarrow> token list \<times> tstate" where
  "tstep (Data t) c = data_char t c"
| "tstep (TagOpen t) c =
     (if c = CHR ''!'' then ([Chars (text_value t)], MarkupDecl)
      else if c = CHR ''/'' then ([], EndTagOpen t)
      else if is_alpha c then ([Chars (text_value t)], TagName False (name_char c))
      else if c = CHR ''?'' then ([Chars (text_value t)], BogusComment)
      else data_char (t @ ''<'') c)"
| "tstep (EndTagOpen t) c =
     (if is_alpha c then ([Chars (text_value t)], TagName True (name_char c))
      else if c = CHR ''>'' then ([], Data t)
      else ([Chars (text_value t)], BogusComment))"
| "tstep (TagName b n) c =
     (if is_space c then ([], BeforeAttrName b n [])
      else if c = CHR ''/'' then ([], SelfClosing b n [])
      else if c = CHR ''>'' then ([emit_tag b n []], Data [])
      else ([], TagName b (n @ name_char c)))"
| "tstep (BeforeAttrName b n as) c = before_attr_name_char b n as c"
| "tstep (AttrName b n as an) c = attr_name_char b n as an c"
| "tstep (AfterAttrName b n as an) c = after_attr_name_char b n as an c"
| "tstep (BeforeAttrValue b n as an) c = before_attr_value_char b n as an c"
| "tstep (AttrValueDq b n as an v) c =
     (if c = dquote then ([], AfterAttrValueQ b n (add_attr as an v))
      else ([], AttrValueDq b n as an (v @ [c])))"
| "tstep (AttrValueSq b n as an v) c =
     (if c = squote then ([], AfterAttrValueQ b n (add_attr as an v))
      else ([], AttrValueSq b n as an (v @ [c])))"
| "tstep (AttrValueUnq b n as an v) c = attr_value_unq_char b n as an v c"
| "tstep (AfterAttrValueQ b n as) c =
     (if is_space c then ([], BeforeAttrName b n as)
      else if c = CHR ''/'' then ([], SelfClosing b n as)
      else if c = CHR ''>'' then ([emit_tag b n as], Data [])
      else before_attr_name_char b n as c)"
| "tstep (SelfClosing b n as) c =
     (if c = CHR ''>'' then ([emit_tag b n as], Data [])
      else before_attr_name_char b n as c)"
| "tstep MarkupDecl c = (if c = CHR ''-'' then ([], MarkupDeclDash) else bogus_char c)"
| "tstep MarkupDeclDash c = (if c = CHR ''-'' then ([], CommentStart) else bogus_char c)"
| "tstep BogusComment c = bogus_char c"
| "tstep CommentStart c =
     (if c = CHR ''-'' then ([], CommentStartDash)
      else if c = CHR ''>'' then ([], Data [])
      else comment_char c)"
| "tstep CommentStartDash c =
     (if c = CHR ''-'' then ([], CommentEnd)
      else if c = CHR ''>'' then ([], Data [])
      else comment_char c)"
| "tstep Comment c = comment_char c"
| "tstep CommentLt c =
     (if c = CHR ''!'' then ([], CommentLtBang)
      else if c = CHR ''<'' then ([], CommentLt)
      else comment_char c)"
| "tstep CommentLtBang c =
     (if c = CHR ''-'' then ([], CommentLtBangDash) else comment_char c)"
| "tstep CommentLtBangDash c =
     (if c = CHR ''-'' then ([], CommentLtBangDashDash) else comment_end_dash_char c)"
| "tstep CommentLtBangDashDash c = comment_end_char c"
| "tstep CommentEndDash c = comment_end_dash_char c"
| "tstep CommentEnd c = comment_end_char c"
| "tstep CommentEndBang c =
     (if c = CHR ''-'' then ([], CommentEndDash)
      else if c = CHR ''>'' then ([], Data [])
      else comment_char c)"

text \<open>
  One character of the input: whether the character before was a carriage return, the
  tokens so far, and the state.
\<close>

fun feed :: "bool \<times> token list \<times> tstate \<Rightarrow> char \<Rightarrow> bool \<times> token list \<times> tstate" where
  "feed (after_cr, out, st) c =
     (if c = CR then (True, out @ fst (tstep st LF), snd (tstep st LF))
      else if c = LF \<and> after_cr then (False, out, st)
      else (False, out @ fst (tstep st c), snd (tstep st c)))"

text \<open>At the end of the input the pending text is a last token; an unfinished tag is dropped.\<close>

definition at_end :: "tstate \<Rightarrow> token list" where
  "at_end st =
     (case st of
        Data t \<Rightarrow> [Chars (text_value t)]
      | TagOpen t \<Rightarrow> [Chars (text_value (t @ ''<''))]
      | EndTagOpen t \<Rightarrow> [Chars (text_value (t @ ''</''))]
      | _ \<Rightarrow> [])"

definition tokenize :: "string \<Rightarrow> token list" where
  "tokenize html =
     (case foldl feed (False, [], Data []) html of (after_cr, out, st) \<Rightarrow> out @ at_end st)"

subsection \<open>The walk over the tokens\<close>

datatype reading = Idle | InHeading string | InAnchor string string

definition add_link :: "folder list \<Rightarrow> string \<times> string \<Rightarrow> folder list" where
  "add_link fs l =
     (if fs = [] then [] else butlast fs @ [(fst (last fs), snd (last fs) @ [l])])"

fun build :: "folder list \<times> reading \<Rightarrow> token \<Rightarrow> folder list \<times> reading" where
  "build (fs, m) (Chars t) =
     (case m of
        Idle \<Rightarrow> (fs, Idle)
      | InHeading x \<Rightarrow> (fs, InHeading (x @ t))
      | InAnchor h x \<Rightarrow> (fs, InAnchor h (x @ t)))"
| "build (fs, m) (StartTag n as) =
     (if n = ''h3'' then (fs, InHeading [])
      else if n = ''a'' then
        (case map_of as ''href'' of Some h \<Rightarrow> (fs, InAnchor h []) | None \<Rightarrow> (fs, m))
      else (fs, m))"
| "build (fs, m) (EndTag n) =
     (case m of
        Idle \<Rightarrow> (fs, Idle)
      | InHeading x \<Rightarrow> if n = ''h3'' then (fs @ [(x, [])], Idle) else (fs, m)
      | InAnchor h x \<Rightarrow> if n = ''a'' then (add_link fs (x, h), Idle) else (fs, m))"

text \<open>
  Modelled from the spec: the entry point of the reader, standing in for the absent
  \<open>parseBookmarks\<close> applied to the text of the file.
\<close>

definition parseBookmarkHtml :: "string \<Rightarrow> folder list" where
  "parseBookmarkHtml html = fst (foldl build ([], Idle) (tokenize html))"

subsection \<open>What the reader gives back for an exported document\<close>

text \<open>A line of the document is read from the state in which the line before left the reader.\<close>

definition line_start :: "bool \<times> token list \<times> tstate" where
  "line_start = (False, [], Data ''\<newline>'')"

definition line_reads :: "string \<Rightarrow> (folder list \<Rightarrow> folder list) \<Rightarrow> bool" where
  "line_reads x f =
     (fst (foldl feed line_start x) = False \<and>
      snd (snd (foldl feed line_start x)) = Data ''\<newline>'' \<and>
      (\<forall>fs. foldl build (fs, Idle) (fst (snd (foldl feed line_start x))) = (f fs, Idle)))"

text \<open>Newline normalization of a text on its own.\<close>

fun normalize_newlines :: "bool \<Rightarrow> string \<Rightarrow> string" where
  "normalize_newlines after_cr [] = []"
| "normalize_newlines after_cr (c # cs) =
     (if c = CR then LF # normalize_newlines True cs
      else if c = LF \<and> after_cr then normalize_newlines False cs
      else c # normalize_newlines False cs)"

text \<open>The title or name, and the address, that the reader gives back for the ones exported.\<close>

definition read_text :: "string \<Rightarrow> string" where
  "read_text s = filter (\<lambda>c. c \<noteq> NUL) (normalize_newlines False s)"

definition read_url :: "string \<Rightarrow> string" where
  "read_url u = attr_value (normalize_newlines False u)"

definition read_back :: "LinkItem list \<Rightarrow> Category list \<Rightarrow> folder list" where
  "read_back links cats =
     map (\<lambda>c. (read_text (name c),
               map (\<lambda>l. (read_text (title l), read_url (url l)))
                 (filter (\<lambda>l. categoryId l = cat_id c) links)))
       cats @
     (if filter (\<lambda>l. categoryId l \<notin> cat_id ` set cats) links = [] then []
      else [(uncategorized_label,
             map (\<lambda>l. (read_text (title l), read_url (url l)))
               (filter (\<lambda>l. categoryId l \<notin> cat_id ` set cats) links))])"

text \<open>
  A text that newline normalization and the dropping of NUL leave as it is, and a link that
  the reader gives back as it was exported: its title and its address are such texts, its
  address holds no double quote and no ampersand (with which a character reference begins),
  and its icon holds no double quote where the icon is written.
\<close>

definition plain_text :: "string \<Rightarrow> bool" where
  "plain_text s = (CR \<notin> set s \<and> NUL \<notin> set s)"

definition round_trip_safe :: "Category list \<Rightarrow> LinkItem \<Rightarrow> bool" where
  "round_trip_safe cats l =
     (attribute_safe cats l \<and> CHR ''&'' \<notin> set (url l) \<and> plain_text (url l) \<and>
      plain_text (title l))"

section \<open>Backup transport (services/webDavService.ts)\<close>

text \<open>
  A thrown exception is a value of \<open>js_error\<close> on the left of a sum. The network, the
  base-64 encoder and the JSON printer are the environment \<open>net\<close>: \<open>fetch\<close> either
  rejects or resolves to a response, \<open>btoa\<close> throws on a character beyond Latin-1.
  Every operation returns the list of the requests it has issued beside its result. A
  decoded JSON object is the list of its members, one entry for each key.
\<close>

datatype js_error = TypeError | NetworkError | SyntaxError | InvalidCharacterError

datatype json =
    JNull
  | JBool bool
  | JNumber int
  | JString string
  | JArray "json list"
  | JObject "(string \<times> json) list"

record request =
  req_method :: string
  req_url :: string
  req_headers :: "(string \<times> string) list"
  req_body :: "string option"

text \<open>\<open>json_result\<close> is what \<open>await response.json()\<close> gives: the decoded body or an error.\<close>

record response =
  ok :: bool
  status :: nat
  json_result :: "js_error + json"

record net =
  fetch :: "request \<Rightarrow> js_error + response"
  btoa :: "string \<Rightarrow> js_error + string"
  stringify :: "LinkItem list \<Rightarrow> Category list \<Rightarrow> string"

definition encodeAuth :: "net \<Rightarrow> string \<Rightarrow> string \<Rightarrow> js_error + string" where
  "encodeAuth env user pass = btoa env (user @ '':'' @ pass)"

definition endsWith :: "string \<Rightarrow> string \<Rightarrow> bool" where
  "endsWith s t = suffix t s"

definition targetUrl :: "WebDavConfig \<Rightarrow> string" where
  "targetUrl config =
     (let filename = ''cloudnav_backup.json''
      in if endsWith (cfg_url config) ''/'' then cfg_url config @ filename
         else cfg_url config @ ''/'' @ filename)"

text \<open>
  \<open>data.k\<close> for a property name \<open>k\<close> that no prototype defines: a \<open>TypeError\<close> on
  \<open>null\<close>, the member of an object, and \<open>undefined\<close> (here \<open>None\<close>) otherwise.
\<close>

definition get_prop :: "json \<Rightarrow> string \<Rightarrow> js_error + json option" where
  "get_prop data k =
     (case data of
        JNull \<Rightarrow> Inl TypeError
      | JObject members \<Rightarrow> Inr (map_of members k)
      | _ \<Rightarrow> Inr None)"

definition isArray :: "json option \<Rightarrow> bool" where
  "isArray v = (case v of Some (JArray xs) \<Rightarrow> True | _ \<Rightarrow> False)"

text \<open>The bodies of the three \<open>try\<close> blocks, then the operations with their \<open>catch\<close>.\<close>

definition checkWebDavConnection_try :: "net \<Rightarrow> WebDavConfig \<Rightarrow> request list \<times> (js_error + bool)" where
  "checkWebDavConnection_try env config =
     (case encodeAuth env (username config) (cfg_password config) of
        Inl e \<Rightarrow> ([], Inl e)
      | Inr auth \<Rightarrow>
          (let req = \<lparr>req_method = ''PROPFIND'', req_url = cfg_url config,
                      req_headers = [(''Authorization'', ''Basic '' @ auth), (''Depth'', ''0'')],
                      req_body = None\<rparr>
           in case fetch env req of
                Inl e \<Rightarrow> ([req], Inl e)
              | Inr response \<Rightarrow> ([req], Inr (status response = 207 \<or> status response = 200))))"

definition checkWebDavConnection :: "net \<Rightarrow> WebDavConfig \<Rightarrow> request list \<times> (js_error + bool)" where
  "checkWebDavConnection env config =
     (case checkWebDavConnection_try env config of
        (log, Inl error) \<Rightarrow> (log, Inr False)
      | (log, Inr r) \<Rightarrow> (log, Inr r))"

definition uploadBackup_try ::
  "net \<Rightarrow> WebDavConfig \<Rightarrow> LinkItem list \<Rightarrow> Category list \<Rightarrow> request list \<times> (js_error + bool)" where
  "uploadBackup_try env config links_data categories_data =
     (let jsonString = stringify env links_data categories_data
      in case encodeAuth env (username config) (cfg_password config) of
           Inl e \<Rightarrow> ([], Inl e)
         | Inr auth \<Rightarrow>
             (let req = \<lparr>req_method = ''PUT'', req_url = targetUrl config,
                         req_headers = [(''Authorization'', ''Basic '' @ auth),
                                        (''Content-Type'', ''application/json'')],
                         req_body = Some jsonString\<rparr>
              in case fetch env req of
                   Inl e \<Rightarrow> ([req], Inl e)
                 | Inr response \<Rightarrow>
                     ([req], Inr (ok response \<or> status response = 201 \<or> status response = 204))))"

definition uploadBackup ::
  "net \<Rightarrow> WebDavConfig \<Rightarrow> LinkItem list \<Rightarrow> Category list \<Rightarrow> request list \<times> (js_error + bool)" where
  "uploadBackup env config links_data categories_data =
     (case uploadBackup_try env config links_data categories_data of
        (log, Inl error) \<Rightarrow> (log, Inr False)
      | (log, Inr r) \<Rightarrow> (log, Inr r))"

definition accept_payload :: "json \<Rightarrow> js_error + json option" where
  "accept_payload data =
     (case get_prop data ''links'' of
        Inl e \<Rightarrow> Inl e
      | Inr l \<Rightarrow>
          if \<not> isArray l then Inr None
          else (case get_prop data ''categories'' of
                  Inl e \<Rightarrow> Inl e
                | Inr c \<Rightarrow> if isArray c then Inr (Some data) else Inr None))"

definition downloadBackup_try :: "net \<Rightarrow> WebDavConfig \<Rightarrow> request list \<times> (js_error + json option)" where
  "downloadBackup_try env config =
     (case encodeAuth env (username config) (cfg_password config) of
        Inl e \<Rightarrow> ([], Inl e)
      | Inr auth \<Rightarrow>
          (let req = \<lparr>req_method = ''GET'', req_url = targetUrl config,
                      req_headers = [(''Authorization'', ''Basic '' @ auth)],
                      req_body = None\<rparr>
           in case fetch env req of
                Inl e \<Rightarrow> ([req], Inl e)
              | Inr response \<Rightarrow>
                  if \<not> ok response then ([req], Inr None)
                  else (case json_result response of
                          Inl e \<Rightarrow> ([req], Inl e)
                        | Inr data \<Rightarrow> ([req], accept_payload data))))"

definition downloadBackup :: "net \<Rightarrow> WebDavConfig \<Rightarrow> request list \<times> (js_error + json option)" where
  "downloadBackup env config =
     (case downloadBackup_try env config of
        (log, Inl error) \<Rightarrow> (log, Inr None)
      | (log, Inr r) \<Rightarrow> (log, Inr r))"

section \<open>Application state (App.tsx)\<close>

datatype sync_status = idle | saving | saved | error

text \<open>
  The part of the component's state that the handlers below read and write, the local
  storage, and the requests issued so far. An empty \<open>authToken\<close> is the falsy one.
\<close>

record AppState =
  links :: "LinkItem list"
  categories :: "Category list"
  authToken :: string
  isAuthOpen :: bool
  syncStatus :: sync_status
  localStorage :: "string \<rightharpoonup> string"
  requests :: "request list"

definition LOCAL_STORAGE_KEY :: string where
  "LOCAL_STORAGE_KEY = ''cloudnav_data_cache''"

definition AUTH_KEY :: string where
  "AUTH_KEY = ''cloudnav_auth_token''"

definition sync_request :: "net \<Rightarrow> LinkItem list \<Rightarrow> Category list \<Rightarrow> string \<Rightarrow> request" where
  "sync_request env newLinks newCategories token =
     \<lparr>req_method = ''POST'', req_url = ''/api/storage'',
      req_headers = [(''Content-Type'', ''application/json''), (''x-auth-password'', token)],
      req_body = Some (stringify env newLinks newCategories)\<rparr>"

text \<open>
  \<open>syncToCloud\<close>, run to its end: the state it leaves and the boolean it resolves to. The
  timer that later resets the status to idle is left out.
\<close>

definition syncToCloud ::
  "net \<Rightarrow> LinkItem list \<Rightarrow> Category list \<Rightarrow> string \<Rightarrow> AppState \<Rightarrow> AppState \<times> bool" where
  "syncToCloud env newLinks newCategories token s =
     (let s1 = s\<lparr>syncStatus := saving\<rparr>;
          req = sync_request env newLinks newCategories token;
          s2 = s1\<lparr>requests := requests s1 @ [req]\<rparr>
      in case fetch env req of
           Inl e \<Rightarrow> (s2\<lparr>syncStatus := error\<rparr>, False)
         | Inr response \<Rightarrow>
             if status response = 401
             then (s2\<lparr>authToken := [],
                      localStorage := (localStorage s2)(AUTH_KEY := None),
                      isAuthOpen := True,
                      syncStatus := error\<rparr>, False)
             else if \<not> ok response then (s2\<lparr>syncStatus := error\<rparr>, False)
             else (s2\<lparr>syncStatus := saved\<rparr>, True))"

definition updateData :: "net \<Rightarrow> LinkItem list \<Rightarrow> Category list \<Rightarrow> AppState \<Rightarrow> AppState" where
  "updateData env newLinks newCategories s =
     (let s1 = s\<lparr>links := newLinks, categories := newCategories\<rparr>;
          s2 = s1\<lparr>localStorage :=
                    (localStorage s1)(LOCAL_STORAGE_KEY \<mapsto> stringify env newLinks newCategories)\<rparr>
      in if authToken s \<noteq> [] then fst (syncToCloud env newLinks newCategories (authToken s) s2)
         else s2)"

text \<open>Lines 522 to 527 of \<open>handleImport\<close>: the merge of the parsed categories.\<close>

definition merge_category :: "Category list \<Rightarrow> Category \<Rightarrow> Category list" where
  "merge_category mergedCategories nc =
     (if find (\<lambda>c. name c = name nc) mergedCategories = None then mergedCategories @ [nc]
      else mergedCategories)"

definition merge_categories :: "Category list \<Rightarrow> Category list \<Rightarrow> Category list" where
  "merge_categories cats newCats = foldl merge_category cats newCats"

text \<open>
  \<open>handleImport\<close>. \<open>file\<close> is the chosen file, if any; \<open>parseBookmarks\<close>, which is not
  among the sources, is a parameter: it gives the parsed links and categories or throws.
\<close>

definition handleImport ::
  "net \<Rightarrow> ('f \<Rightarrow> js_error + LinkItem list \<times> Category list) \<Rightarrow> 'f option \<Rightarrow> AppState \<Rightarrow> AppState" where
  "handleImport env parseBookmarks file s =
     (case file of
        None \<Rightarrow> s
      | Some f \<Rightarrow>
          if authToken s = [] then s\<lparr>isAuthOpen := True\<rparr>
          else (case parseBookmarks f of
                  Inl err \<Rightarrow> s
                | Inr (newLinks, newCats) \<Rightarrow>
                    (let mergedCategories = merge_categories (categories s) newCats;
                         mergedLinks = links s @ newLinks
                     in updateData env mergedLinks mergedCategories s)))"

definition handleDeleteCategory :: "net \<Rightarrow> string \<Rightarrow> AppState \<Rightarrow> AppState" where
  "handleDeleteCategory env catId s =
     (if authToken s = [] then s\<lparr>isAuthOpen := True\<rparr>
      else
        (let newCats = filter (\<lambda>c. cat_id c \<noteq> catId) (categories s);
             targetId = ''common'';
             newLinks = map (\<lambda>l. if categoryId l = catId then l\<lparr>categoryId := targetId\<rparr> else l)
                          (links s);
             newCats' = (if length newCats = 0 then newCats @ [hd DEFAULT_CATEGORIES] else newCats)
         in updateData env newLinks newCats' s))"

section \<open>Sample data\<close>

text \<open>Concrete values at which the theorems below are exercised.\<close>

definition sample_link :: "string \<Rightarrow> string \<Rightarrow> string option \<Rightarrow> string \<Rightarrow> int \<Rightarrow> LinkItem" where
  "sample_link t u i c ms =
     \<lparr>link_id = ''1'', title = t, url = u, icon = i, description = None, categoryId = c,
      createdAt = ms, pinned = None\<rparr>"

definition sample_category :: "string \<Rightarrow> string \<Rightarrow> Category" where
  "sample_category i n = \<lparr>cat_id = i, name = n, cat_icon = ''Star'', password = None\<rparr>"

definition sample_config :: WebDavConfig where
  "sample_config =
     \<lparr>cfg_url = ''https://dav.example/'', username = ''u'', cfg_password = ''p'', enabled = True\<rparr>"

text \<open>A network that answers every request with the given response.\<close>

definition answering_net :: "response \<Rightarrow> net" where
  "answering_net r = \<lparr>fetch = (\<lambda>req. Inr r), btoa = Inr, stringify = (\<lambda>l c. ''{}'')\<rparr>"

text \<open>A network on which every request fails.\<close>

definition failing_net :: net where
  "failing_net = \<lparr>fetch = (\<lambda>req. Inl NetworkError), btoa = Inr, stringify = (\<lambda>l c. ''{}'')\<rparr>"

definition sample_state :: AppState where
  "sample_state =
     \<lparr>links = [sample_link ''GitHub'' ''https://github.com'' None ''dev'' 0,
               sample_link ''Gemini'' ''https://gemini.google.com'' None ''ai'' 0],
      categories = [sample_category ''dev'' ''Dev'', sample_category ''ai'' ''AI''],
      authToken = ''secret'',
      isAuthOpen = False,
      syncStatus = idle,
      localStorage = [AUTH_KEY \<mapsto> ''secret''],
      requests = []\<rparr>"

text \<open>
  An address that closes its own attribute and opens a second anchor, and an icon that
  does the same.
\<close>

definition breaking_url :: string where
  \<open>breaking_url = ''a" ADD_DATE="1">t</A>\<newline>        <DT><A HREF="b''\<close>

definition breaking_icon :: string where
  \<open>breaking_icon = ''x">t</A>\<newline>        <DT><A HREF="b" ADD_DATE="2''\<close>

section \<open>Facts about the exporter\<close>

lemma foldl_append_concat: "foldl (\<lambda>h x. h @ f x) h0 xs = h0 @ concat (map f xs)"
  by (induction xs arbitrary: h0) simp_all

lemma foldl_group_step:
  "foldl group_step m ls k =
     (if filter (\<lambda>l. categoryId l = k) ls = [] then m k
      else Some ((case m k of Some l \<Rightarrow> l | None \<Rightarrow> []) @ filter (\<lambda>l. categoryId l = k) ls))"
proof (induction ls arbitrary: m)
  case Nil
  show ?case by simp
next
  case (Cons a ls)
  show ?case
    by (simp add: Cons.IH) (simp add: group_step_def Let_def)
qed

lemma catLinks_filter: "catLinks ls cat = filter (\<lambda>l. categoryId l = cat_id cat) ls"
  by (simp add: catLinks_def linksByCat_def foldl_group_step)

lemma uncategorized_filter:
  "uncategorized ls cats = filter (\<lambda>l. categoryId l \<notin> cat_id ` set cats) ls"
  by (simp add: uncategorized_def)

lemma emit_category_block:
  "emit_category now ls html cat =
     html @ folder_block now (escapeHtml (name cat)) (map category_anchor (catLinks ls cat))"
  by (simp add: emit_category_def folder_block_def Let_def foldl_append_concat)

lemma foldl_emit_category:
  "foldl (emit_category now ls) html cats =
     html @ concat (map (\<lambda>c. folder_block now (escapeHtml (name c))
                               (map category_anchor (catLinks ls c))) cats)"
  by (induction cats arbitrary: html) (simp_all add: emit_category_block)

lemma generateBookmarkHtml_layout:
  "generateBookmarkHtml dateNow ls cats =
     header @
     concat (map (\<lambda>c. folder_block (dateNow div 1000) (escapeHtml (name c))
                        (map category_anchor (catLinks ls c))) cats) @
     (if uncategorized ls cats = [] then []
      else folder_block (dateNow div 1000) uncategorized_label
             (map uncategorized_anchor (uncategorized ls cats))) @
     footer"
  by (simp add: generateBookmarkHtml_def Let_def foldl_emit_category foldl_append_concat
      folder_block_def)

lemma replace_all_Nil [simp]: "replace_all c r [] = []"
  by (simp add: replace_all_def)

lemma replace_all_Cons:
  "replace_all c r (x # s) = (if x = c then r else [x]) @ replace_all c r s"
  by (simp add: replace_all_def)

lemma replace_all_append: "replace_all c r (s @ t) = replace_all c r s @ replace_all c r t"
  by (simp add: replace_all_def)

lemma escapeHtml_Nil [simp]: "escapeHtml [] = []"
  by (simp add: escapeHtml_def)

lemma escapeHtml_Cons: "escapeHtml (c # s) = escape_char c @ escapeHtml s"
  by (simp add: escapeHtml_def escape_char_def replace_all_Cons replace_all_append
      dquote_def squote_def)

lemma escapeHtml_chars: "escapeHtml s = concat (map escape_char s)"
  by (induction s) (simp_all add: escapeHtml_Cons)

lemma count_list_filter:
  "count_list (filter P xs) x = (if P x then count_list xs x else 0)"
  by (induction xs) auto

lemma show_nat_digit: "n < 10 \<Longrightarrow> show_nat n = [digit_char n]"
  by (simp add: show_nat.simps)

section \<open>Facts about the reader\<close>

lemma feed_out1:
  "feed (p, out, st) c = (fst (feed (p, [], st) c), out @ fst (snd (feed (p, [], st) c)), snd (snd (feed (p, [], st) c)))"
  by simp

lemma feed_out:
  "foldl feed (p, out, st) x =
     (fst (foldl feed (p, [], st) x), out @ fst (snd (foldl feed (p, [], st) x)),
      snd (snd (foldl feed (p, [], st) x)))"
proof (induction x arbitrary: p out st)
  case Nil
  show ?case by simp
next
  case (Cons c x)
  obtain p1 o1 s1 where f: "feed (p, [], st) c = (p1, o1, s1)"
    by (cases "feed (p, [], st) c") auto
  have g: "feed (p, out, st) c = (p1, out @ o1, s1)"
    using f by (subst feed_out1) simp
  show ?case
    using Cons.IH[of p1 "out @ o1" s1] Cons.IH[of p1 o1 s1]
    by (simp only: foldl_Cons f g) simp
qed

lemma data_run:
  "CHR ''<'' \<notin> set x \<Longrightarrow>
     foldl feed (p, out, Data t) x =
       (if x = [] then p else last x = CR, out, Data (t @ normalize_newlines p x))"
proof (induction x arbitrary: p t)
  case Nil
  show ?case by simp
next
  case (Cons c x)
  have lt: "c \<noteq> CHR ''<''" and x: "CHR ''<'' \<notin> set x" using Cons.prems by auto
  have step: "feed (p, out, Data t) c =
      (c = CR, out, Data (t @ normalize_newlines p [c]))"
    using lt by (simp add: data_char_def CR_def LF_def)
  have norm: "normalize_newlines p (c # x) =
      normalize_newlines p [c] @ normalize_newlines (c = CR) x"
    by simp
  show ?case
    unfolding foldl_Cons step norm using Cons.IH[OF x, of "c = CR" "t @ normalize_newlines p [c]"]
    by (cases x) simp_all
qed

lemma dq_run:
  "CHR 0x22 \<notin> set x \<Longrightarrow>
     foldl feed (p, out, AttrValueDq b n as an v) x =
       (if x = [] then p else last x = CR, out,
        AttrValueDq b n as an (v @ normalize_newlines p x))"
proof (induction x arbitrary: p v)
  case Nil
  show ?case by simp
next
  case (Cons c x)
  have dq: "c \<noteq> CHR 0x22" and x: "CHR 0x22 \<notin> set x" using Cons.prems by auto
  have step: "feed (p, out, AttrValueDq b n as an v) c =
      (c = CR, out, AttrValueDq b n as an (v @ normalize_newlines p [c]))"
    using dq by (simp add: dquote_def CR_def LF_def)
  have norm: "normalize_newlines p (c # x) =
      normalize_newlines p [c] @ normalize_newlines (c = CR) x"
    by simp
  show ?case
    unfolding foldl_Cons step norm using Cons.IH[OF x, of "c = CR" "v @ normalize_newlines p [c]"]
    by (cases x) simp_all
qed

lemma line_reads_Nil: "line_reads [] (\<lambda>fs. fs)"
  by (simp add: line_reads_def line_start_def)

lemma line_reads_append:
  assumes "line_reads x f" and "line_reads y g"
  shows "line_reads (x @ y) (\<lambda>fs. g (f fs))"
proof -
  obtain o1 where x: "foldl feed line_start x = (False, o1, Data ''\<newline>'')"
    and bx: "\<And>fs. foldl build (fs, Idle) o1 = (f fs, Idle)"
    using assms(1) unfolding line_reads_def
    by (cases "foldl feed line_start x") auto
  obtain o2 where y: "foldl feed line_start y = (False, o2, Data ''\<newline>'')"
    and gy: "\<And>fs. foldl build (fs, Idle) o2 = (g fs, Idle)"
    using assms(2) unfolding line_reads_def
    by (cases "foldl feed line_start y") auto
  have "foldl feed line_start (x @ y) = foldl feed (False, o1, Data ''\<newline>'') y"
    by (simp only: foldl_append x)
  also have "\<dots> = (False, o1 @ o2, Data ''\<newline>'')"
    using y by (subst feed_out) (simp add: line_start_def)
  finally show ?thesis
    using bx gy by (simp add: line_reads_def)
qed

lemma line_reads_concat:
  assumes "\<And>x. x \<in> set xs \<Longrightarrow> line_reads (h x) (F x)"
  shows "line_reads (concat (map h xs)) (\<lambda>fs. foldl (\<lambda>a x. F x a) fs xs)"
  using assms
proof (induction xs rule: rev_induct)
  case Nil
  show ?case by (simp add: line_reads_Nil)
next
  case (snoc x xs)
  have "line_reads (concat (map h xs) @ h x) (\<lambda>fs. F x (foldl (\<lambda>a x. F x a) fs xs))"
    using snoc by (intro line_reads_append) simp_all
  then show ?case by simp
qed

lemma normalize_dquote: "dquote \<notin> set x \<Longrightarrow> dquote \<notin> set (normalize_newlines p x)"
  by (induction x arbitrary: p) (auto simp: dquote_def LF_def)

lemma digit_char_not_dquote: "CHR 0x22 \<noteq> digit_char d"
  by (simp add: digit_char_def)

lemma show_nat_no_dquote: "CHR 0x22 \<notin> set (show_nat n)"
proof (induction n rule: show_nat.induct)
  case (1 n)
  show ?case
  proof (cases "n < 10")
    case True
    then show ?thesis using digit_char_not_dquote by (subst show_nat.simps) simp
  next
    case False
    then show ?thesis using 1 digit_char_not_dquote by (subst show_nat.simps) simp
  qed
qed

lemma show_int_no_dquote: "CHR 0x22 \<notin> set (show_int i)"
  by (simp add: show_int_def show_nat_no_dquote)

lemma escape_char_no_lt: "CHR ''<'' \<notin> set (escape_char c)"
  by (simp add: escape_char_def)

lemma escapeHtml_no_lt: "CHR ''<'' \<notin> set (escapeHtml s)"
  by (simp add: escapeHtml_chars escape_char_no_lt)

lemma line_reads_uncategorized_anchor:
  assumes "dquote \<notin> set (url l)"
  shows "line_reads (uncategorized_anchor l)
           (\<lambda>fs. add_link fs (text_value (normalize_newlines False (escapeHtml (title l))),
                              attr_value (normalize_newlines False (url l))))"
  using assms
  by (simp add: line_reads_def line_start_def uncategorized_anchor_def
      data_run dq_run show_int_no_dquote escapeHtml_no_lt
      data_char_def before_attr_name_char_def attr_name_char_def
      before_attr_value_char_def emit_tag_def add_attr_def name_char_def
      is_space_def is_alpha_def lower_def upper_letters_def lower_letters_def
      CR_def LF_def NUL_def dquote_def squote_def text_value_def)

lemmas tokenizer_simps =
  data_char_def before_attr_name_char_def attr_name_char_def after_attr_name_char_def
  before_attr_value_char_def attr_value_unq_char_def bogus_char_def comment_char_def
  comment_end_dash_char_def comment_end_char_def emit_tag_def add_attr_def name_char_def
  is_space_def is_alpha_def lower_def upper_letters_def lower_letters_def
  CR_def LF_def NUL_def dquote_def squote_def

lemma line_reads_category_anchor:
  assumes "dquote \<notin> set (url l)"
    and "case icon l of None \<Rightarrow> True | Some i \<Rightarrow> dquote \<notin> set i"
  shows "line_reads (category_anchor l)
           (\<lambda>fs. add_link fs (text_value (normalize_newlines False (escapeHtml (title l))),
                              attr_value (normalize_newlines False (url l))))"
proof (cases "icon l")
  case None
  then show ?thesis
    using assms(1)
    by (simp add: line_reads_def line_start_def category_anchor_def iconAttr_def
        data_run dq_run show_int_no_dquote escapeHtml_no_lt tokenizer_simps text_value_def)
next
  case (Some i)
  then have "CHR 0x22 \<notin> set i" using assms(2) by (simp add: dquote_def)
  then show ?thesis
    using assms(1) Some
    by (simp add: line_reads_def line_start_def category_anchor_def iconAttr_def
        data_run dq_run show_int_no_dquote escapeHtml_no_lt tokenizer_simps text_value_def)
qed

lemma line_reads_heading:
  assumes "CHR ''<'' \<notin> set heading"
  shows "line_reads
           (''    <DT><H3 ADD_DATE=\"'' @ show_int now @ ''\" LAST_MODIFIED=\"'' @ show_int now @
            ''\">'' @ heading @ ''</H3>\<newline>'' @ ''    <DL><p>\<newline>'')
           (\<lambda>fs. fs @ [(text_value (normalize_newlines False heading), [])])"
  using assms
  by (simp add: line_reads_def line_start_def
      data_run dq_run show_int_no_dquote tokenizer_simps text_value_def)

lemma line_reads_close: "line_reads ''    </DL><p>\<newline>'' (\<lambda>fs. fs)"
  by (simp add: line_reads_def line_start_def tokenizer_simps text_value_def)

lemma foldl_add_link:
  "foldl (\<lambda>a x. add_link a (g x)) (fs @ [(h, as)]) xs = fs @ [(h, as @ map g xs)]"
  by (induction xs arbitrary: as) (simp_all add: add_link_def)

lemma line_reads_folder_block:
  assumes "CHR ''<'' \<notin> set heading"
    and "\<And>x. x \<in> set xs \<Longrightarrow> line_reads (f x) (\<lambda>fs. add_link fs (g x))"
  shows "line_reads (folder_block now heading (map f xs))
           (\<lambda>fs. fs @ [(text_value (normalize_newlines False heading), map g xs)])"
proof -
  have "line_reads
      ((''    <DT><H3 ADD_DATE=\"'' @ show_int now @ ''\" LAST_MODIFIED=\"'' @ show_int now @
            ''\">'' @ heading @ ''</H3>\<newline>'' @ ''    <DL><p>\<newline>'') @
       concat (map f xs) @ ''    </DL><p>\<newline>'')
      (\<lambda>fs. foldl (\<lambda>a x. add_link a (g x))
              (fs @ [(text_value (normalize_newlines False heading), [])]) xs)"
    by (intro line_reads_append[OF line_reads_heading[OF assms(1)]]
        line_reads_append[OF line_reads_concat line_reads_close] assms(2))
  then show ?thesis
    by (simp add: folder_block_def foldl_add_link)
qed

lemma header_read:
  "fst (foldl feed (False, [], Data []) header) = False
   \<and> snd (snd (foldl feed (False, [], Data []) header)) = Data ''\<newline>''
   \<and> foldl build ([], Idle) (fst (snd (foldl feed (False, [], Data []) header))) = ([], Idle)"
  by (simp add: header_def tokenizer_simps text_value_def)

lemma footer_read:
  "foldl build (fs, Idle)
     (fst (snd (foldl feed line_start footer)) @ at_end (snd (snd (foldl feed line_start footer)))) =
   (fs, Idle)"
  by (simp add: footer_def line_start_def at_end_def tokenizer_simps text_value_def)

lemma unescapeHtml_escape_char: "unescapeHtml (escape_char c @ s) = c # unescapeHtml s"
  by (simp add: escape_char_def dquote_def squote_def)

lemma unescapeHtml_escapeHtml: "unescapeHtml (escapeHtml s) = s"
  by (induction s) (simp_all add: escapeHtml_Cons unescapeHtml_escape_char)

lemma normalize_escape_char:
  "normalize_newlines p (escape_char c @ s) =
     (if c = CR then LF # normalize_newlines True s
      else if c = LF \<and> p then normalize_newlines False s
      else escape_char c @ normalize_newlines False s)"
  by (simp add: escape_char_def dquote_def squote_def CR_def LF_def)

lemma normalize_escapeHtml:
  "normalize_newlines p (escapeHtml s) = escapeHtml (normalize_newlines p s)"
proof (induction s arbitrary: p)
  case Nil
  show ?case by simp
next
  case (Cons c s)
  have lf: "escape_char LF = [LF]" by (simp add: escape_char_def LF_def dquote_def squote_def)
  show ?case
    by (simp add: escapeHtml_Cons normalize_escape_char Cons.IH lf)
qed

lemma text_value_escapeHtml:
  "text_value (normalize_newlines False (escapeHtml s)) = read_text s"
  by (simp add: text_value_def read_text_def normalize_escapeHtml unescapeHtml_escapeHtml)

lemma text_value_label:
  "text_value (normalize_newlines False uncategorized_label) = uncategorized_label"
  by (simp add: text_value_def uncategorized_label_def CR_def LF_def NUL_def)

lemma label_no_lt: "CHR ''<'' \<notin> set uncategorized_label"
  by (simp add: uncategorized_label_def)

lemma foldl_snoc_map: "foldl (\<lambda>a x. a @ [g x]) fs xs = fs @ map g xs"
  by (induction xs arbitrary: fs) simp_all

lemma line_reads_body:
  assumes safe: "\<And>l. l \<in> set ls \<Longrightarrow> attribute_safe cats l"
  shows "line_reads
           (concat (map (\<lambda>c. folder_block now (escapeHtml (name c))
                              (map category_anchor (catLinks ls c))) cats) @
            (if uncategorized ls cats = [] then []
             else folder_block now uncategorized_label
                    (map uncategorized_anchor (uncategorized ls cats))))
           (\<lambda>fs. fs @ read_back ls cats)"
proof -
  let ?g = "\<lambda>l. (read_text (title l), read_url (url l))"
  have cat_anchor: "line_reads (category_anchor l) (\<lambda>fs. add_link fs (?g l))"
    if "l \<in> set (catLinks ls c)" "c \<in> set cats" for l c
  proof -
    from that have l: "l \<in> set ls" "categoryId l \<in> cat_id ` set cats"
      by (auto simp: catLinks_filter)
    with safe[OF l(1)] have "dquote \<notin> set (url l)"
      "case icon l of None \<Rightarrow> True | Some i \<Rightarrow> dquote \<notin> set i"
      by (simp_all add: attribute_safe_def)
    then show ?thesis
      using line_reads_category_anchor[of l]
      by (simp add: text_value_escapeHtml read_url_def)
  qed
  have unc_anchor: "line_reads (uncategorized_anchor l) (\<lambda>fs. add_link fs (?g l))"
    if "l \<in> set (uncategorized ls cats)" for l
  proof -
    from that have "l \<in> set ls" by (simp add: uncategorized_filter)
    from safe[OF this] have "dquote \<notin> set (url l)" by (simp add: attribute_safe_def)
    then show ?thesis
      using line_reads_uncategorized_anchor[of l]
      by (simp add: text_value_escapeHtml read_url_def)
  qed
  have block: "line_reads
      (folder_block now (escapeHtml (name c)) (map category_anchor (catLinks ls c)))
      (\<lambda>fs. fs @ [(read_text (name c), map ?g (catLinks ls c))])"
    if "c \<in> set cats" for c
    using line_reads_folder_block[of "escapeHtml (name c)" "catLinks ls c" category_anchor ?g now]
      escapeHtml_no_lt cat_anchor that
    by (simp add: text_value_escapeHtml)
  have blocks: "line_reads
      (concat (map (\<lambda>c. folder_block now (escapeHtml (name c))
                              (map category_anchor (catLinks ls c))) cats))
      (\<lambda>fs. foldl (\<lambda>a c. a @ [(read_text (name c), map ?g (catLinks ls c))]) fs cats)"
    using block by (rule line_reads_concat)
  have trailing: "line_reads
      (if uncategorized ls cats = [] then []
       else folder_block now uncategorized_label
              (map uncategorized_anchor (uncategorized ls cats)))
      (\<lambda>fs. fs @ (if uncategorized ls cats = [] then []
                   else [(uncategorized_label, map ?g (uncategorized ls cats))]))"
  proof (cases "uncategorized ls cats = []")
    case True
    then show ?thesis by (simp add: line_reads_Nil)
  next
    case False
    then show ?thesis
      using line_reads_folder_block[of uncategorized_label "uncategorized ls cats"
          uncategorized_anchor ?g now] label_no_lt unc_anchor
      by (simp add: text_value_label)
  qed
  have eq: "(\<lambda>fs. foldl (\<lambda>a c. a @ [(read_text (name c), map ?g (catLinks ls c))]) fs cats @
              (if uncategorized ls cats = [] then []
               else [(uncategorized_label, map ?g (uncategorized ls cats))])) =
      (\<lambda>fs. fs @ read_back ls cats)"
    by (simp add: fun_eq_iff foldl_snoc_map read_back_def catLinks_filter uncategorized_filter)
  show ?thesis
    by (subst eq[symmetric]) (rule line_reads_append[OF blocks trailing])
qed

lemma parseBookmarkHtml_generateBookmarkHtml:
  assumes safe: "\<And>l. l \<in> set ls \<Longrightarrow> attribute_safe cats l"
  shows "parseBookmarkHtml (generateBookmarkHtml dateNow ls cats) = read_back ls cats"
proof -
  define body where "body =
     concat (map (\<lambda>c. folder_block (dateNow div 1000) (escapeHtml (name c))
                        (map category_anchor (catLinks ls c))) cats) @
     (if uncategorized ls cats = [] then []
      else folder_block (dateNow div 1000) uncategorized_label
             (map uncategorized_anchor (uncategorized ls cats)))"
  have doc: "generateBookmarkHtml dateNow ls cats = header @ body @ footer"
    by (simp add: generateBookmarkHtml_layout body_def)
  obtain ho where h: "foldl feed (False, [], Data []) header = (False, ho, Data ''\<newline>'')"
    and bh: "foldl build ([], Idle) ho = ([], Idle)"
    using header_read by (cases "foldl feed (False, [], Data []) header") auto
  have "line_reads body (\<lambda>fs. fs @ read_back ls cats)"
    unfolding body_def using safe by (rule line_reads_body)
  then obtain bo where b: "foldl feed line_start body = (False, bo, Data ''\<newline>'')"
    and bb: "\<And>fs. foldl build (fs, Idle) bo = (fs @ read_back ls cats, Idle)"
    unfolding line_reads_def by (cases "foldl feed line_start body") auto
  obtain pf fo sf where f: "foldl feed line_start footer = (pf, fo, sf)"
    by (cases "foldl feed line_start footer") auto
  have bf: "foldl build (foldl build (fs, Idle) fo) (at_end sf) = (fs, Idle)" for fs
    using footer_read[of fs] by (simp add: f)
  have s1: "foldl feed (False, ho, Data ''\<newline>'') body = (False, ho @ bo, Data ''\<newline>'')"
    using b by (subst feed_out) (simp add: line_start_def)
  have s2: "foldl feed (False, ho @ bo, Data ''\<newline>'') footer = (pf, (ho @ bo) @ fo, sf)"
    using f by (subst feed_out) (simp add: line_start_def)
  have "tokenize (header @ body @ footer) = ho @ bo @ fo @ at_end sf"
    by (simp only: tokenize_def foldl_append h s1 s2) simp
  then show ?thesis
    by (simp add: parseBookmarkHtml_def doc bh bb bf)
qed

lemma normalize_newlines_plain: "CR \<notin> set s \<Longrightarrow> normalize_newlines False s = s"
  by (induction s) auto

lemma unescapeHtml_plain: "CHR ''&'' \<notin> set s \<Longrightarrow> unescapeHtml s = s"
  by (induction s) auto

lemma read_text_plain: "plain_text s \<Longrightarrow> read_text s = s"
  by (auto simp: read_text_def plain_text_def normalize_newlines_plain filter_id_conv)

lemma attr_value_plain: "CHR ''&'' \<notin> set s \<Longrightarrow> NUL \<notin> set s \<Longrightarrow> attr_value s = s"
  by (induction s) (auto simp: attr_value_def unescapeHtml_plain)

lemma read_url_plain: "CHR ''&'' \<notin> set u \<Longrightarrow> plain_text u \<Longrightarrow> read_url u = u"
  by (simp add: read_url_def plain_text_def normalize_newlines_plain attr_value_plain)

lemma read_back_plain:
  assumes "\<forall>l \<in> set ls. round_trip_safe cats l"
    and "\<forall>c \<in> set cats. plain_text (name c)"
  shows "read_back ls cats = exported_folders ls cats"
proof -
  have l: "(read_text (title l), read_url (url l)) = (title l, url l)" if "l \<in> set ls" for l
    using assms(1) that by (simp add: round_trip_safe_def read_text_plain read_url_plain)
  have m: "map (\<lambda>l. (read_text (title l), read_url (url l))) (filter P ls) =
      map (\<lambda>l. (title l, url l)) (filter P ls)" for P
    by (rule map_cong) (simp_all add: l)
  have c: "map (\<lambda>c. (read_text (name c), map (\<lambda>l. (title l, url l))
                  (filter (\<lambda>l. categoryId l = cat_id c) ls))) cats =
      map (\<lambda>c. (name c, map (\<lambda>l. (title l, url l))
                  (filter (\<lambda>l. categoryId l = cat_id c) ls))) cats"
    by (rule map_cong) (use assms(2) in \<open>simp_all add: read_text_plain\<close>)
  show ?thesis
    by (simp add: read_back_def exported_folders_def m c)
qed

lemma parseBookmarkHtml_round_trip:
  assumes "\<forall>l \<in> set ls. round_trip_safe cats l"
    and "\<forall>c \<in> set cats. plain_text (name c)"
  shows "parseBookmarkHtml (generateBookmarkHtml dateNow ls cats) = exported_folders ls cats"
proof -
  have "parseBookmarkHtml (generateBookmarkHtml dateNow ls cats) = read_back ls cats"
    using assms(1) by (intro parseBookmarkHtml_generateBookmarkHtml) (simp add: round_trip_safe_def)
  then show ?thesis
    using assms by (simp add: read_back_plain)
qed

section \<open>Facts about the application state\<close>

lemma updateData_links: "links (updateData env newLinks newCategories s) = newLinks"
  by (simp add: updateData_def syncToCloud_def Let_def split: sum.splits)

lemma updateData_categories: "categories (updateData env newLinks newCategories s) = newCategories"
  by (simp add: updateData_def syncToCloud_def Let_def split: sum.splits)

lemma merge_categories_shape:
  "\<exists>added. foldl merge_category cats newCats = cats @ added \<and> subseq added newCats \<and>
     (\<forall>nc \<in> set added. name nc \<notin> name ` set cats) \<and>
     (\<forall>nc \<in> set newCats. name nc \<in> name ` set (cats @ added))"
proof (induction newCats arbitrary: cats)
  case Nil
  show ?case by simp
next
  case (Cons a newCats)
  obtain added where ih: "foldl merge_category (merge_category cats a) newCats = merge_category cats a @ added"
    "subseq added newCats" "\<forall>nc \<in> set added. name nc \<notin> name ` set (merge_category cats a)"
    "\<forall>nc \<in> set newCats. name nc \<in> name ` set (merge_category cats a @ added)"
    using Cons.IH[of "merge_category cats a"] by blast
  show ?case
  proof (cases "find (\<lambda>c. name c = name a) cats = None")
    case True
    then have m: "merge_category cats a = cats @ [a]" by (simp add: merge_category_def)
    from True have fresh: "name a \<notin> name ` set cats" by (auto simp: find_None_iff)
    show ?thesis
      using ih fresh by (intro exI[of _ "a # added"]) (auto simp: m)
  next
    case False
    then have m: "merge_category cats a = cats" by (simp add: merge_category_def)
    from False have "name a \<in> name ` set cats" by (auto simp: find_None_iff image_iff) metis
    then show ?thesis
      using ih by (intro exI[of _ added]) (auto simp: m)
  qed
qed

section \<open>The claims\<close>

subsection \<open>Export and read back\<close>

text \<open>
  C1 (as amended). For every list of links and every list of categories in which no title,
  address or category name holds a carriage return or a NUL character, no address holds a
  double quote or an ampersand, and no icon that is written holds a double quote, reading the
  document that \<open>generateBookmarkHtml\<close> produces recovers every folder in order: the name of
  each category with the title and address of each of its links, and, where some link has no
  category, the trailing folder with the title and address of each such link. The reader is
  the one modelled above; the repository's own is not among the sources. Whatever the
  reader, the document determines the folders: two such inputs with the same document have
  the same folders.
\<close>

theorem export_then_read_recovers_folders:
  assumes "\<forall>l \<in> set ls. round_trip_safe cats l"
    and "\<forall>c \<in> set cats. plain_text (name c)"
  shows "parseBookmarkHtml (generateBookmarkHtml dateNow ls cats) = exported_folders ls cats
     \<and> (\<forall>dateNow' ls' cats'.
          (\<forall>l \<in> set ls'. round_trip_safe cats' l) \<longrightarrow>
          (\<forall>c \<in> set cats'. plain_text (name c)) \<longrightarrow>
          generateBookmarkHtml dateNow' ls' cats' = generateBookmarkHtml dateNow ls cats \<longrightarrow>
          exported_folders ls' cats' = exported_folders ls cats)"
proof (intro conjI allI impI)
  show read: "parseBookmarkHtml (generateBookmarkHtml dateNow ls cats) = exported_folders ls cats"
    using assms by (rule parseBookmarkHtml_round_trip)
  fix dateNow' ls' cats'
  assume "\<forall>l \<in> set ls'. round_trip_safe cats' l" and "\<forall>c \<in> set cats'. plain_text (name c)"
    and same: "generateBookmarkHtml dateNow' ls' cats' = generateBookmarkHtml dateNow ls cats"
  then have "parseBookmarkHtml (generateBookmarkHtml dateNow' ls' cats') =
      exported_folders ls' cats'"
    by (intro parseBookmarkHtml_round_trip)
  with read same show "exported_folders ls' cats' = exported_folders ls cats"
    by simp
qed

theorem export_then_read_recovers_folders_witness:
  "parseBookmarkHtml
     (generateBookmarkHtml 1700000000000
        [sample_link ''a<b & c'' ''https://x.example/?q=<1>'' (Some ''i.png'') ''dev'' 5000,
         sample_link ''It's'' ''https://y.example'' None ''gone'' 0]
        [sample_category ''dev'' ''R&D'']) =
   [(''R&D'', [(''a<b & c'', ''https://x.example/?q=<1>'')]),
    (uncategorized_label, [(''It's'', ''https://y.example'')])]"
  using export_then_read_recovers_folders
    [of "[sample_link ''a<b & c'' ''https://x.example/?q=<1>'' (Some ''i.png'') ''dev'' 5000,
          sample_link ''It's'' ''https://y.example'' None ''gone'' 0]"
        "[sample_category ''dev'' ''R&D'']" 1700000000000]
  by (simp add: round_trip_safe_def attribute_safe_def plain_text_def exported_folders_def
      sample_link_def sample_category_def dquote_def CR_def NUL_def)

text \<open>
  The claim as it stands fails. A link whose address holds a double quote gives the very
  document that two other links give, so no reader can tell them apart, and the reader
  above returns the two; an icon that holds a double quote does the same, although the
  address is plain. An address that holds a character reference is read back decoded, a
  title that holds a carriage return is read back with a line feed, and a title that holds
  a NUL character is read back without it.
\<close>

theorem export_then_read_counterexample:
  "generateBookmarkHtml 0 [sample_link ''u'' breaking_url None ''c'' 2000]
     [sample_category ''c'' ''C''] =
   generateBookmarkHtml 0
     [sample_link ''t'' ''a'' None ''c'' 1000, sample_link ''u'' ''b'' None ''c'' 2000]
     [sample_category ''c'' ''C'']
   \<and> exported_folders [sample_link ''u'' breaking_url None ''c'' 2000]
         [sample_category ''c'' ''C''] \<noteq>
       exported_folders
         [sample_link ''t'' ''a'' None ''c'' 1000, sample_link ''u'' ''b'' None ''c'' 2000]
         [sample_category ''c'' ''C'']
   \<and> parseBookmarkHtml
         (generateBookmarkHtml 0 [sample_link ''u'' breaking_url None ''c'' 2000]
            [sample_category ''c'' ''C'']) \<noteq>
       exported_folders [sample_link ''u'' breaking_url None ''c'' 2000]
         [sample_category ''c'' ''C'']
   \<and> generateBookmarkHtml 0 [sample_link ''u'' ''a'' (Some breaking_icon) ''c'' 1000]
         [sample_category ''c'' ''C''] =
       generateBookmarkHtml 0
         [sample_link ''t'' ''a'' (Some ''x'') ''c'' 1000, sample_link ''u'' ''b'' None ''c'' 2000]
         [sample_category ''c'' ''C'']
   \<and> exported_folders [sample_link ''u'' ''a'' (Some breaking_icon) ''c'' 1000]
         [sample_category ''c'' ''C''] \<noteq>
       exported_folders
         [sample_link ''t'' ''a'' (Some ''x'') ''c'' 1000, sample_link ''u'' ''b'' None ''c'' 2000]
         [sample_category ''c'' ''C'']
   \<and> parseBookmarkHtml
         (generateBookmarkHtml 0 [sample_link ''t'' ''a&amp;b'' None ''c'' 0]
            [sample_category ''c'' ''C'']) = [(''C'', [(''t'', ''a&b'')])]
   \<and> exported_folders [sample_link ''t'' ''a&amp;b'' None ''c'' 0]
         [sample_category ''c'' ''C''] = [(''C'', [(''t'', ''a&amp;b'')])]
   \<and> parseBookmarkHtml
         (generateBookmarkHtml 0 [sample_link [CHR ''s'', CHR 0x0D, CHR ''t''] ''a'' None ''c'' 0]
            [sample_category ''c'' ''C'']) = [(''C'', [([CHR ''s'', CHR 0x0A, CHR ''t''], ''a'')])]
   \<and> parseBookmarkHtml
         (generateBookmarkHtml 0 [sample_link [CHR ''s'', CHR 0x00, CHR ''t''] ''a'' None ''c'' 0]
            [sample_category ''c'' ''C'']) = [(''C'', [(''st'', ''a'')])]"
proof -
  let ?one = "[sample_link ''u'' breaking_url None ''c'' 2000]"
  let ?two = "[sample_link ''t'' ''a'' None ''c'' 1000, sample_link ''u'' ''b'' None ''c'' 2000]"
  let ?icon = "[sample_link ''u'' ''a'' (Some breaking_icon) ''c'' 1000]"
  let ?two' = "[sample_link ''t'' ''a'' (Some ''x'') ''c'' 1000,
                sample_link ''u'' ''b'' None ''c'' 2000]"
  let ?cats = "[sample_category ''c'' ''C'']"
  note gen_simps = generateBookmarkHtml_layout uncategorized_def catLinks_filter
        category_anchor_def iconAttr_def show_int_def show_nat_digit digit_char_def
        folder_block_def escapeHtml_Cons escape_char_def dquote_def squote_def
        sample_link_def sample_category_def
  note read_simps = read_back_def read_text_def read_url_def attr_value_def attribute_safe_def
        sample_link_def sample_category_def dquote_def squote_def CR_def LF_def NUL_def
  have same: "generateBookmarkHtml 0 ?one ?cats = generateBookmarkHtml 0 ?two ?cats"
    by (simp add: gen_simps breaking_url_def)
  have differ: "exported_folders ?one ?cats \<noteq> exported_folders ?two ?cats"
    by (simp add: exported_folders_def sample_link_def sample_category_def)
  have "parseBookmarkHtml (generateBookmarkHtml 0 ?two ?cats) = exported_folders ?two ?cats"
    by (subst parseBookmarkHtml_generateBookmarkHtml)
      (auto simp: read_simps exported_folders_def)
  with same differ have unread: "parseBookmarkHtml (generateBookmarkHtml 0 ?one ?cats) \<noteq>
      exported_folders ?one ?cats"
    by simp
  have same': "generateBookmarkHtml 0 ?icon ?cats = generateBookmarkHtml 0 ?two' ?cats"
    by (simp add: gen_simps breaking_icon_def)
  have differ': "exported_folders ?icon ?cats \<noteq> exported_folders ?two' ?cats"
    by (simp add: exported_folders_def sample_link_def sample_category_def)
  have amp: "parseBookmarkHtml
         (generateBookmarkHtml 0 [sample_link ''t'' ''a&amp;b'' None ''c'' 0] ?cats) =
       [(''C'', [(''t'', ''a&b'')])]"
    by (subst parseBookmarkHtml_generateBookmarkHtml) (auto simp: read_simps)
  have amp': "exported_folders [sample_link ''t'' ''a&amp;b'' None ''c'' 0] ?cats =
      [(''C'', [(''t'', ''a&amp;b'')])]"
    by (simp add: exported_folders_def sample_link_def sample_category_def)
  have cr: "parseBookmarkHtml
         (generateBookmarkHtml 0 [sample_link [CHR ''s'', CHR 0x0D, CHR ''t''] ''a'' None ''c'' 0]
            ?cats) = [(''C'', [([CHR ''s'', CHR 0x0A, CHR ''t''], ''a'')])]"
    by (subst parseBookmarkHtml_generateBookmarkHtml) (auto simp: read_simps)
  have nul: "parseBookmarkHtml
         (generateBookmarkHtml 0 [sample_link [CHR ''s'', CHR 0x00, CHR ''t''] ''a'' None ''c'' 0]
            ?cats) = [(''C'', [(''st'', ''a'')])]"
    by (subst parseBookmarkHtml_generateBookmarkHtml) (auto simp: read_simps)
  from same differ unread same' differ' amp amp' cr nul show ?thesis by blast
qed

text \<open>
  C2. In the document, every category name and every link title stands with each of the five
  characters \<open>&\<close>, \<open><\<close>, \<open>>\<close>, the double and the single quote replaced by its entity,
  one character at a time; every address, and every icon that is written, stands as it is.
\<close>

theorem generateBookmarkHtml_escapes_text_only:
  \<open>generateBookmarkHtml dateNow ls cats =
     header @
     concat (map (\<lambda>c.
        folder_block (dateNow div 1000) (concat (map escape_char (name c)))
          (map (\<lambda>l. ''        <DT><A HREF="'' @ url l @ ''" ADD_DATE="'' @
                     show_int (createdAt l div 1000) @ ''"'' @
                     (case icon l of None \<Rightarrow> []
                      | Some i \<Rightarrow> if i = [] then [] else '' ICON="'' @ i @ ''"'') @
                     ''>'' @ concat (map escape_char (title l)) @ ''</A>\<newline>'')
             (catLinks ls c))) cats) @
     (if uncategorized ls cats = [] then []
      else folder_block (dateNow div 1000) uncategorized_label
             (map (\<lambda>l. ''        <DT><A HREF="'' @ url l @ ''" ADD_DATE="'' @
                        show_int (createdAt l div 1000) @ ''">'' @
                        concat (map escape_char (title l)) @ ''</A>\<newline>'')
                (uncategorized ls cats))) @
     footer\<close>
proof -
  have a: \<open>category_anchor = (\<lambda>l. ''        <DT><A HREF="'' @ url l @ ''" ADD_DATE="'' @
                     show_int (createdAt l div 1000) @ ''"'' @
                     (case icon l of None \<Rightarrow> []
                      | Some i \<Rightarrow> if i = [] then [] else '' ICON="'' @ i @ ''"'') @
                     ''>'' @ concat (map escape_char (title l)) @ ''</A>\<newline>'')\<close>
    by (rule ext) (simp add: category_anchor_def iconAttr_def escapeHtml_chars)
  have b: \<open>uncategorized_anchor = (\<lambda>l. ''        <DT><A HREF="'' @ url l @ ''" ADD_DATE="'' @
                        show_int (createdAt l div 1000) @ ''">'' @
                        concat (map escape_char (title l)) @ ''</A>\<newline>'')\<close>
    by (rule ext) (simp add: uncategorized_anchor_def escapeHtml_chars)
  show ?thesis
    unfolding generateBookmarkHtml_layout a b escapeHtml_chars ..
qed

text \<open>
  C3. The document is the header, one folder per category, the trailing folder when some
  link's category identifier is no category's, and the footer. The anchors in the folder of
  a category are those of the links that carry its identifier, in their order; the anchors
  in the trailing folder are those of the links whose category identifier is no category's,
  in their order, one anchor for each such link. So a link whose category identifier is no
  category's has its anchor in the trailing folder once for each time it stands in the
  input and in no category folder, and a link whose category identifier is some category's
  has no anchor in the trailing folder.
\<close>

theorem dangling_links_only_in_trailing_folder:
  \<open>generateBookmarkHtml dateNow ls cats =
     header @
     concat (map (\<lambda>c.
        ''    <DT><H3 ADD_DATE="'' @ show_int (dateNow div 1000) @ ''" LAST_MODIFIED="'' @
        show_int (dateNow div 1000) @ ''">'' @ escapeHtml (name c) @ ''</H3>\<newline>'' @
        ''    <DL><p>\<newline>'' @
        concat (map (\<lambda>l. ''        <DT><A HREF="'' @ url l @ ''" ADD_DATE="'' @
                          show_int (createdAt l div 1000) @ ''"'' @
                          (case icon l of None \<Rightarrow> []
                           | Some i \<Rightarrow> if i = [] then [] else '' ICON="'' @ i @ ''"'') @
                          ''>'' @
                          escapeHtml (title l) @ ''</A>\<newline>'')
                  (filter (\<lambda>l. categoryId l = cat_id c) ls)) @
        ''    </DL><p>\<newline>'') cats) @
     (if filter (\<lambda>l. categoryId l \<notin> cat_id ` set cats) ls = [] then []
      else ''    <DT><H3 ADD_DATE="'' @ show_int (dateNow div 1000) @ ''" LAST_MODIFIED="'' @
           show_int (dateNow div 1000) @ ''">'' @ uncategorized_label @ ''</H3>\<newline>'' @
           ''    <DL><p>\<newline>'' @
           concat (map (\<lambda>l. ''        <DT><A HREF="'' @ url l @ ''" ADD_DATE="'' @
                             show_int (createdAt l div 1000) @ ''">'' @
                             escapeHtml (title l) @ ''</A>\<newline>'')
                     (filter (\<lambda>l. categoryId l \<notin> cat_id ` set cats) ls)) @
           ''    </DL><p>\<newline>'') @
     ''</DL><p>''
   \<and> (\<forall>l. categoryId l \<notin> cat_id ` set cats \<longrightarrow>
          count_list (filter (\<lambda>l. categoryId l \<notin> cat_id ` set cats) ls) l = count_list ls l \<and>
          (\<forall>c \<in> set cats. count_list (filter (\<lambda>l. categoryId l = cat_id c) ls) l = 0))
   \<and> (\<forall>l. categoryId l \<in> cat_id ` set cats \<longrightarrow>
          count_list (filter (\<lambda>l. categoryId l \<notin> cat_id ` set cats) ls) l = 0)\<close>
proof -
  have a: \<open>category_anchor = (\<lambda>l. ''        <DT><A HREF="'' @ url l @ ''" ADD_DATE="'' @
                          show_int (createdAt l div 1000) @ ''"'' @
                          (case icon l of None \<Rightarrow> []
                           | Some i \<Rightarrow> if i = [] then [] else '' ICON="'' @ i @ ''"'') @
                          ''>'' @
                          escapeHtml (title l) @ ''</A>\<newline>'')\<close>
    by (rule ext) (simp add: category_anchor_def iconAttr_def)
  have b: \<open>uncategorized_anchor = (\<lambda>l. ''        <DT><A HREF="'' @ url l @ ''" ADD_DATE="'' @
                             show_int (createdAt l div 1000) @ ''">'' @
                             escapeHtml (title l) @ ''</A>\<newline>'')\<close>
    by (rule ext) (simp add: uncategorized_anchor_def)
  have doc: \<open>generateBookmarkHtml dateNow ls cats =
     header @
     concat (map (\<lambda>c.
        ''    <DT><H3 ADD_DATE="'' @ show_int (dateNow div 1000) @ ''" LAST_MODIFIED="'' @
        show_int (dateNow div 1000) @ ''">'' @ escapeHtml (name c) @ ''</H3>\<newline>'' @
        ''    <DL><p>\<newline>'' @
        concat (map category_anchor (filter (\<lambda>l. categoryId l = cat_id c) ls)) @
        ''    </DL><p>\<newline>'') cats) @
     (if filter (\<lambda>l. categoryId l \<notin> cat_id ` set cats) ls = [] then []
      else ''    <DT><H3 ADD_DATE="'' @ show_int (dateNow div 1000) @ ''" LAST_MODIFIED="'' @
           show_int (dateNow div 1000) @ ''">'' @ uncategorized_label @ ''</H3>\<newline>'' @
           ''    <DL><p>\<newline>'' @
           concat (map uncategorized_anchor
                     (filter (\<lambda>l. categoryId l \<notin> cat_id ` set cats) ls)) @
           ''    </DL><p>\<newline>'') @
     ''</DL><p>''\<close>
    by (simp add: generateBookmarkHtml_layout catLinks_filter uncategorized_filter
        folder_block_def footer_def)
  have counts: "(\<forall>l. categoryId l \<notin> cat_id ` set cats \<longrightarrow>
          count_list (filter (\<lambda>l. categoryId l \<notin> cat_id ` set cats) ls) l = count_list ls l \<and>
          (\<forall>c \<in> set cats. count_list (filter (\<lambda>l. categoryId l = cat_id c) ls) l = 0))
   \<and> (\<forall>l. categoryId l \<in> cat_id ` set cats \<longrightarrow>
          count_list (filter (\<lambda>l. categoryId l \<notin> cat_id ` set cats) ls) l = 0)"
    by (auto simp: count_list_filter)
  from doc counts show ?thesis unfolding a b by (rule conjI)
qed

theorem dangling_links_only_in_trailing_folder_witness:
  \<open>generateBookmarkHtml 0
     [sample_link ''A'' ''u'' None ''gone'' 0, sample_link ''B'' ''v'' None ''dev'' 0]
     [sample_category ''dev'' ''Dev''] =
   header @
   ''    <DT><H3 ADD_DATE="0" LAST_MODIFIED="0">Dev</H3>\<newline>'' @
   ''    <DL><p>\<newline>'' @
   ''        <DT><A HREF="v" ADD_DATE="0">B</A>\<newline>'' @
   ''    </DL><p>\<newline>'' @
   ''    <DT><H3 ADD_DATE="0" LAST_MODIFIED="0">'' @ uncategorized_label @ ''</H3>\<newline>'' @
   ''    <DL><p>\<newline>'' @
   ''        <DT><A HREF="u" ADD_DATE="0">A</A>\<newline>'' @
   ''    </DL><p>\<newline>'' @
   ''</DL><p>''
   \<and> categoryId (sample_link ''A'' ''u'' None ''gone'' 0) \<notin>
       cat_id ` set [sample_category ''dev'' ''Dev'']
   \<and> count_list
       (filter (\<lambda>l. categoryId l \<notin> cat_id ` set [sample_category ''dev'' ''Dev''])
          [sample_link ''A'' ''u'' None ''gone'' 0, sample_link ''B'' ''v'' None ''dev'' 0])
       (sample_link ''A'' ''u'' None ''gone'' 0) = 1\<close>
  using dangling_links_only_in_trailing_folder
    [of 0 "[sample_link ''A'' ''u'' None ''gone'' 0, sample_link ''B'' ''v'' None ''dev'' 0]"
        "[sample_category ''dev'' ''Dev'']"]
  by (simp add: iconAttr_def show_int_def show_nat_digit digit_char_def escapeHtml_Cons
      escape_char_def dquote_def squote_def sample_link_def sample_category_def)

text \<open>
  C8. The claim holds of the anchors in the category folders and fails in the trailing
  folder: there the anchor of a link that has an icon carries \<open>ADD_DATE\<close> (5000 ms written
  as 5) and no \<open>ICON\<close>, while the same link under a category carries both.
\<close>

theorem uncategorized_anchor_drops_icon:
  \<open>generateBookmarkHtml 0 [sample_link ''T'' ''u'' (Some ''i.png'') ''gone'' 5000] [] =
    header @
    ''    <DT><H3 ADD_DATE="0" LAST_MODIFIED="0">'' @ uncategorized_label @ ''</H3>\<newline>'' @
    ''    <DL><p>\<newline>'' @
    ''        <DT><A HREF="u" ADD_DATE="5">T</A>\<newline>'' @
    ''    </DL><p>\<newline>'' @
    ''</DL><p>''
   \<and>
   generateBookmarkHtml 0 [sample_link ''T'' ''u'' (Some ''i.png'') ''c'' 5000]
      [sample_category ''c'' ''C''] =
    header @
    ''    <DT><H3 ADD_DATE="0" LAST_MODIFIED="0">C</H3>\<newline>'' @
    ''    <DL><p>\<newline>'' @
    ''        <DT><A HREF="u" ADD_DATE="5" ICON="i.png">T</A>\<newline>'' @
    ''    </DL><p>\<newline>'' @
    ''</DL><p>''\<close>
  by (simp add: generateBookmarkHtml_layout uncategorized_def catLinks_filter folder_block_def
      uncategorized_anchor_def category_anchor_def iconAttr_def show_int_def show_nat_digit
      digit_char_def escapeHtml_Cons escape_char_def dquote_def squote_def footer_def
      sample_link_def sample_category_def)

text \<open>
  C10. The trailing folder stands in the document if and only if some link's category
  identifier is no category's; without such a link the footer follows the last category
  folder. A category none of whose links carries its identifier still gets its folder, with
  the heading and an empty list.
\<close>

theorem uncategorized_folder_iff_dangling_link:
  \<open>generateBookmarkHtml dateNow ls cats =
     header @
     concat (map (\<lambda>c. folder_block (dateNow div 1000) (escapeHtml (name c))
                        (map category_anchor (filter (\<lambda>l. categoryId l = cat_id c) ls))) cats) @
     (if \<exists>l \<in> set ls. categoryId l \<notin> cat_id ` set cats
      then folder_block (dateNow div 1000) uncategorized_label
             (map uncategorized_anchor (filter (\<lambda>l. categoryId l \<notin> cat_id ` set cats) ls))
      else []) @
     footer
   \<and> (\<forall>c html now. (\<forall>l \<in> set ls. categoryId l \<noteq> cat_id c) \<longrightarrow>
          emit_category now ls html c =
            html @ ''    <DT><H3 ADD_DATE="'' @ show_int now @ ''" LAST_MODIFIED="'' @
            show_int now @ ''">'' @ escapeHtml (name c) @ ''</H3>\<newline>'' @
            ''    <DL><p>\<newline>'' @ ''    </DL><p>\<newline>'')\<close>
proof -
  have "catLinks ls c = []" if "\<forall>l \<in> set ls. categoryId l \<noteq> cat_id c" for c
    using that by (simp add: catLinks_filter filter_empty_conv)
  then show ?thesis
    by (simp add: generateBookmarkHtml_layout catLinks_filter uncategorized_filter
        filter_empty_conv emit_category_block folder_block_def)
qed

theorem uncategorized_folder_iff_dangling_link_witness:
  \<open>generateBookmarkHtml 0 [] [sample_category ''c'' ''C''] =
     header @
     ''    <DT><H3 ADD_DATE="0" LAST_MODIFIED="0">C</H3>\<newline>'' @
     ''    <DL><p>\<newline>'' @ ''    </DL><p>\<newline>'' @ ''</DL><p>''
   \<and> emit_category 0 [] header (sample_category ''c'' ''C'') =
     header @
     ''    <DT><H3 ADD_DATE="0" LAST_MODIFIED="0">C</H3>\<newline>'' @
     ''    <DL><p>\<newline>'' @ ''    </DL><p>\<newline>''\<close>
  using uncategorized_folder_iff_dangling_link [of 0 "[]" "[sample_category ''c'' ''C'']"]
  by (simp add: folder_block_def show_int_def show_nat_digit digit_char_def escapeHtml_Cons
      escape_char_def dquote_def squote_def footer_def sample_category_def)

subsection \<open>Backup transport\<close>

text \<open>
  C4. Whenever the request is answered with an ok response whose body decodes to a payload,
  \<open>downloadBackup\<close> returns that payload if it is an object whose members \<open>links\<close> and
  \<open>categories\<close> are both arrays, and returns null otherwise; in neither case does it
  throw.
\<close>

theorem downloadBackup_accepts_iff_both_arrays:
  assumes "encodeAuth env (username config) (cfg_password config) = Inr auth"
    and "fetch env \<lparr>req_method = ''GET'', req_url = targetUrl config,
                     req_headers = [(''Authorization'', ''Basic '' @ auth)],
                     req_body = None\<rparr> = Inr response"
    and "ok response"
    and "json_result response = Inr data"
  shows "snd (downloadBackup env config) =
           (if \<exists>members ls cs. data = JObject members \<and>
                  map_of members ''links'' = Some (JArray ls) \<and>
                  map_of members ''categories'' = Some (JArray cs)
            then Inr (Some data) else Inr None)"
proof -
  have "snd (downloadBackup env config) =
          (case accept_payload data of Inl e \<Rightarrow> Inr None | Inr r \<Rightarrow> Inr r)"
    using assms by (simp add: downloadBackup_def downloadBackup_try_def Let_def split: sum.splits)
  also have "\<dots> = (if \<exists>members ls cs. data = JObject members \<and>
                  map_of members ''links'' = Some (JArray ls) \<and>
                  map_of members ''categories'' = Some (JArray cs)
            then Inr (Some data) else Inr None)"
    by (cases data)
      (auto simp: accept_payload_def get_prop_def isArray_def split: option.splits json.splits)
  finally show ?thesis .
qed

theorem downloadBackup_accepts_iff_both_arrays_witness:
  "snd (downloadBackup
          (answering_net \<lparr>ok = True, status = 200,
             json_result = Inr (JObject [(''links'', JObject []), (''categories'', JArray [])])\<rparr>)
          sample_config) = Inr None
   \<and> snd (downloadBackup
          (answering_net \<lparr>ok = True, status = 200,
             json_result = Inr (JObject [(''links'', JArray []), (''categories'', JArray [])])\<rparr>)
          sample_config) =
       Inr (Some (JObject [(''links'', JArray []), (''categories'', JArray [])]))"
  using downloadBackup_accepts_iff_both_arrays
    [of "answering_net \<lparr>ok = True, status = 200,
           json_result = Inr (JObject [(''links'', JObject []), (''categories'', JArray [])])\<rparr>"
        sample_config "''u:p''"
        "\<lparr>ok = True, status = 200,
           json_result = Inr (JObject [(''links'', JObject []), (''categories'', JArray [])])\<rparr>"
        "JObject [(''links'', JObject []), (''categories'', JArray [])]"]
    downloadBackup_accepts_iff_both_arrays
    [of "answering_net \<lparr>ok = True, status = 200,
           json_result = Inr (JObject [(''links'', JArray []), (''categories'', JArray [])])\<rparr>"
        sample_config "''u:p''"
        "\<lparr>ok = True, status = 200,
           json_result = Inr (JObject [(''links'', JArray []), (''categories'', JArray [])])\<rparr>"
        "JObject [(''links'', JArray []), (''categories'', JArray [])]"]
  by (simp add: encodeAuth_def answering_net_def sample_config_def)

text \<open>
  C9. Each of \<open>checkWebDavConnection\<close>, \<open>uploadBackup\<close> and \<open>downloadBackup\<close> returns a
  value whatever the environment does, never an exception; where the body of its \<open>try\<close>
  throws, the value is \<open>false\<close>, \<open>false\<close> and null respectively; and each issues at
  most one request, so none retries.
\<close>

theorem transport_never_throws_never_retries:
  "(\<exists>b. snd (checkWebDavConnection env config) = Inr b)
   \<and> (\<exists>b. snd (uploadBackup env config ld cd) = Inr b)
   \<and> (\<exists>r. snd (downloadBackup env config) = Inr r)
   \<and> (\<forall>e. snd (checkWebDavConnection_try env config) = Inl e \<longrightarrow>
          snd (checkWebDavConnection env config) = Inr False)
   \<and> (\<forall>e. snd (uploadBackup_try env config ld cd) = Inl e \<longrightarrow>
          snd (uploadBackup env config ld cd) = Inr False)
   \<and> (\<forall>e. snd (downloadBackup_try env config) = Inl e \<longrightarrow>
          snd (downloadBackup env config) = Inr None)
   \<and> length (fst (checkWebDavConnection env config)) \<le> 1
   \<and> length (fst (uploadBackup env config ld cd)) \<le> 1
   \<and> length (fst (downloadBackup env config)) \<le> 1"
proof -
  have c: "(\<exists>b. snd (checkWebDavConnection env config) = Inr b)
      \<and> (\<forall>e. snd (checkWebDavConnection_try env config) = Inl e \<longrightarrow>
          snd (checkWebDavConnection env config) = Inr False)
      \<and> length (fst (checkWebDavConnection env config)) \<le> 1"
    by (auto simp: checkWebDavConnection_def checkWebDavConnection_try_def Let_def
        split: sum.splits prod.splits)
  have u: "(\<exists>b. snd (uploadBackup env config ld cd) = Inr b)
      \<and> (\<forall>e. snd (uploadBackup_try env config ld cd) = Inl e \<longrightarrow>
          snd (uploadBackup env config ld cd) = Inr False)
      \<and> length (fst (uploadBackup env config ld cd)) \<le> 1"
    by (auto simp: uploadBackup_def uploadBackup_try_def Let_def
        split: sum.splits prod.splits)
  have d: "(\<exists>r. snd (downloadBackup env config) = Inr r)
      \<and> (\<forall>e. snd (downloadBackup_try env config) = Inl e \<longrightarrow>
          snd (downloadBackup env config) = Inr None)
      \<and> length (fst (downloadBackup env config)) \<le> 1"
    by (auto simp: downloadBackup_def downloadBackup_try_def Let_def
        split: sum.splits prod.splits if_splits)
  from c u d show ?thesis by blast
qed

theorem transport_never_throws_never_retries_witness:
  "snd (checkWebDavConnection_try failing_net sample_config) = Inl NetworkError
   \<and> snd (checkWebDavConnection failing_net sample_config) = Inr False
   \<and> snd (uploadBackup_try failing_net sample_config [] []) = Inl NetworkError
   \<and> snd (uploadBackup failing_net sample_config [] []) = Inr False
   \<and> snd (downloadBackup_try failing_net sample_config) = Inl NetworkError
   \<and> snd (downloadBackup failing_net sample_config) = Inr None
   \<and> length (fst (downloadBackup failing_net sample_config)) = 1"
  using transport_never_throws_never_retries [of failing_net sample_config "[]" "[]"]
  by (simp add: checkWebDavConnection_try_def uploadBackup_try_def downloadBackup_try_def
      downloadBackup_def encodeAuth_def failing_net_def Let_def)

subsection \<open>Application state\<close>

text \<open>
  C5. When the request of \<open>syncToCloud\<close> is answered with status 401, the operation
  resolves to \<open>false\<close>, the token in memory is empty, the stored key is removed, the
  authentication prompt is open, and the one request is the only one issued.
\<close>

theorem syncToCloud_401_clears_credential:
  assumes "fetch env (sync_request env newLinks newCategories token) = Inr response"
    and "status response = 401"
  shows "snd (syncToCloud env newLinks newCategories token s) = False
     \<and> authToken (fst (syncToCloud env newLinks newCategories token s)) = []
     \<and> localStorage (fst (syncToCloud env newLinks newCategories token s)) AUTH_KEY = None
     \<and> isAuthOpen (fst (syncToCloud env newLinks newCategories token s)) = True
     \<and> requests (fst (syncToCloud env newLinks newCategories token s)) =
         requests s @ [sync_request env newLinks newCategories token]"
  using assms by (simp add: syncToCloud_def Let_def)

theorem syncToCloud_401_clears_credential_witness:
  "localStorage sample_state AUTH_KEY = Some ''secret''
   \<and> snd (syncToCloud (answering_net \<lparr>ok = False, status = 401, json_result = Inl SyntaxError\<rparr>)
            [] [] ''secret'' sample_state) = False
   \<and> authToken (fst (syncToCloud
            (answering_net \<lparr>ok = False, status = 401, json_result = Inl SyntaxError\<rparr>)
            [] [] ''secret'' sample_state)) = []
   \<and> localStorage (fst (syncToCloud
            (answering_net \<lparr>ok = False, status = 401, json_result = Inl SyntaxError\<rparr>)
            [] [] ''secret'' sample_state)) AUTH_KEY = None
   \<and> length (requests (fst (syncToCloud
            (answering_net \<lparr>ok = False, status = 401, json_result = Inl SyntaxError\<rparr>)
            [] [] ''secret'' sample_state))) = 1"
  using syncToCloud_401_clears_credential
    [of "answering_net \<lparr>ok = False, status = 401, json_result = Inl SyntaxError\<rparr>"
        "[]" "[]" "''secret''" "\<lparr>ok = False, status = 401, json_result = Inl SyntaxError\<rparr>"
        sample_state]
  by (simp add: answering_net_def sample_state_def)

text \<open>
  C6. Deleting a category never changes the number of links. When the user is signed in, so
  that the category is deleted, the links afterwards are the links before, in order, each
  link of the deleted category with its category identifier set to \<open>common\<close> and every other
  link as it was. When the user is not signed in, nothing is deleted and the links and
  categories stay as they were.
\<close>

theorem handleDeleteCategory_reassigns_links:
  "length (links (handleDeleteCategory env catId s)) = length (links s)
   \<and> (authToken s \<noteq> [] \<longrightarrow>
        links (handleDeleteCategory env catId s) =
          map (\<lambda>l. if categoryId l = catId then l\<lparr>categoryId := ''common''\<rparr> else l) (links s))
   \<and> (authToken s = [] \<longrightarrow>
        links (handleDeleteCategory env catId s) = links s \<and>
        categories (handleDeleteCategory env catId s) = categories s)"
  by (simp add: handleDeleteCategory_def Let_def updateData_links)

theorem handleDeleteCategory_reassigns_links_witness:
  "authToken sample_state \<noteq> []
   \<and> links (handleDeleteCategory failing_net ''dev'' sample_state) =
       [sample_link ''GitHub'' ''https://github.com'' None ''common'' 0,
        sample_link ''Gemini'' ''https://gemini.google.com'' None ''ai'' 0]
   \<and> links (handleDeleteCategory failing_net ''dev'' (sample_state\<lparr>authToken := []\<rparr>)) =
       links sample_state"
  using handleDeleteCategory_reassigns_links [of failing_net "''dev''" sample_state]
    handleDeleteCategory_reassigns_links [of failing_net "''dev''" "sample_state\<lparr>authToken := []\<rparr>"]
  by (simp add: sample_state_def sample_link_def)

text \<open>
  C7. When a signed-in user imports a file that parses, the links afterwards are the links
  before followed by all parsed links, and the categories afterwards are the categories
  before followed by some of the parsed categories in their order: none of those appended has
  the name of a category that was there before, and every parsed category's name is the name
  of some category afterwards.
\<close>

theorem handleImport_merges_by_name:
  assumes "authToken s \<noteq> []"
    and "parseBookmarks f = Inr (newLinks, newCats)"
  shows "links (handleImport env parseBookmarks (Some f) s) = links s @ newLinks
     \<and> (\<exists>added. categories (handleImport env parseBookmarks (Some f) s) = categories s @ added
          \<and> subseq added newCats
          \<and> (\<forall>nc \<in> set added. name nc \<notin> name ` set (categories s))
          \<and> (\<forall>nc \<in> set newCats. name nc \<in> name ` set (categories s @ added)))"
  using assms merge_categories_shape[of "categories s" newCats]
  by (simp add: handleImport_def Let_def updateData_links updateData_categories merge_categories_def)

theorem handleImport_merges_by_name_witness:
  "authToken sample_state \<noteq> []
   \<and> links (handleImport failing_net
        (\<lambda>f. Inr ([sample_link ''GitHub'' ''https://github.com'' None ''x1'' 0],
                  [sample_category ''x1'' ''Dev'', sample_category ''x2'' ''dev'']))
        (Some ''bookmarks.html'') sample_state) =
       links sample_state @ [sample_link ''GitHub'' ''https://github.com'' None ''x1'' 0]
   \<and> categories (handleImport failing_net
        (\<lambda>f. Inr ([sample_link ''GitHub'' ''https://github.com'' None ''x1'' 0],
                  [sample_category ''x1'' ''Dev'', sample_category ''x2'' ''dev'']))
        (Some ''bookmarks.html'') sample_state) =
       categories sample_state @ [sample_category ''x2'' ''dev'']"
  using handleImport_merges_by_name
    [of sample_state
        "\<lambda>f. Inr ([sample_link ''GitHub'' ''https://github.com'' None ''x1'' 0],
                  [sample_category ''x1'' ''Dev'', sample_category ''x2'' ''dev''])"
        "''bookmarks.html''"
        "[sample_link ''GitHub'' ''https://github.com'' None ''x1'' 0]"
        "[sample_category ''x1'' ''Dev'', sample_category ''x2'' ''dev'']"
        failing_net]
  by (simp add: handleImport_def updateData_links updateData_categories merge_categories_def
      merge_category_def sample_state_def sample_category_def Let_def)

end
